theory Spec2Isabelle
  imports Main "HOL-Library.AList"
begin

section \<open>Constants (cloud/consts.js)\<close>

definition MIGRATION_KEY :: string where
  "MIGRATION_KEY = ''migrationStatus''"

definition IS_MIGRATED :: int where
  "IS_MIGRATED = 1"

definition FINISHED_SECOND_PASS :: int where
  "FINISHED_SECOND_PASS = 2"

definition NEEDS_SECOND_PASS :: int where
  "NEEDS_SECOND_PASS = 3"

definition BATCH_SIZE :: nat where
  "BATCH_SIZE = 1000"

text \<open>\<open>MAXIMUM_DURATION = 14.5 * 60 * 1000\<close> milliseconds.\<close>

definition MAXIMUM_DURATION :: int where
  "MAXIMUM_DURATION = 870000"

section \<open>Data model\<close>

text \<open>
  A record of the object store, as far as the migrator reads it: \<open>isNew()\<close> is
  "has no objectId yet", \<open>existed()\<close> is the store's flag "this object was already
  there before the save that just completed", \<open>get\<close>/\<open>set\<close> read and write the
  attributes, and \<open>dirtyKeys()\<close> lists the attributes with a pending change, in the
  order in which they were first changed. Attribute values are integers: the only
  attribute the migrator compares is the integer-valued status.
\<close>

record pobj =
  className :: string
  objectId :: "string option"
  existedFlag :: bool
  attributes :: "(string \<times> int) list"
  dirty :: "string list"

definition get_obj :: "pobj \<Rightarrow> string \<Rightarrow> int option" where
  "get_obj obj k = map_of (attributes obj) k"

definition set_obj :: "string \<Rightarrow> int \<Rightarrow> pobj \<Rightarrow> pobj" where
  "set_obj k v obj =
     obj\<lparr>attributes := AList.update k v (attributes obj),
         dirty := (if k \<in> set (dirty obj) then dirty obj else dirty obj @ [k])\<rparr>"

definition isNew :: "pobj \<Rightarrow> bool" where
  "isNew obj = (objectId obj = None)"

definition existed :: "pobj \<Rightarrow> bool" where
  "existed obj = existedFlag obj"

definition dirtyKeys :: "pobj \<Rightarrow> string list" where
  "dirtyKeys obj = dirty obj"

text \<open>The request of a trigger; the migrator reads only \<open>request.object\<close>.\<close>

record request =
  object :: pobj

text \<open>
  An entity type is given either by its name or by a constructor; of a constructor the
  migrator reads only the \<open>className\<close> of a fresh instance.
\<close>

datatype klass = Name string | Constructor string

datatype trigger_type =
  BeforeSave | AfterSave | BeforeDelete | AfterDelete | MigrateObject | MigrateDelete

text \<open>
  Thrown values and rejection reasons. \<open>AlreadyRegistered t k\<close> stands for the string
  \<open>"Already registered a " + t + " trigger for " + k\<close>; \<open>BatchErrors\<close> is the array
  with which the promise library's \<open>when\<close> rejects (one slot per promise, empty where
  that promise resolved).
\<close>

datatype error =
  AlreadyRegistered trigger_type klass
  | Thrown string
  | TypeError
  | BatchErrors "error option list"

text \<open>What a promise resolves to, as far as \<open>isParseObject\<close> tells values apart.\<close>

datatype jsval = JUndefined | JNull | JParse pobj | JOther

text \<open>
  How a call of a user function ends: it returns a value or a promise that resolves
  (\<open>Resolved\<close>), it returns a promise that rejects (\<open>Rejected\<close>), or it throws before
  returning (\<open>Threw\<close>). Inside a \<open>then\<close> callback the last two are the same, the chain
  rejects; where a handler is called outside of one they are not.
\<close>

datatype 'a outcome = Resolved 'a | Rejected error | Threw error

record response_object =
  success :: "jsval list \<Rightarrow> jsval outcome"
  error :: "jsval list \<Rightarrow> jsval outcome"

datatype arg = ARequest request | AObject pobj | AResponse response_object

text \<open>
  What a call of a user function does: how it ends (\<open>ends\<close>); the record it was
  given as the source reads it next, if the call changed it (\<open>edited\<close>: for
  \<open>afterSave\<close>, whose promise the source does not wait for, the record when the call
  returns; for \<open>beforeDelete\<close>, the record when its promise has resolved); and how
  the calls end that the function makes after it has returned, outside of the promise
  it returned (\<open>later\<close>). Nothing in the source sees the last ones: a throw there is
  outside of every promise chain.
\<close>

record reaction =
  ends :: "jsval outcome"
  edited :: "pobj option"
  later :: "jsval outcome list"

text \<open>
  A user handler, applied to its argument list. Handlers are taken to settle, and their
  effects outside of the record are not part of the model. A before-write handler that
  edits \<open>request.object\<close> in place and resolves to nothing is represented by the one
  that resolves to the edited record: after the handler \<open>getBeforeSave\<close> reads the
  record only through \<open>obj\<close>, so it takes no \<open>edited\<close>. Migrate handlers follow
  the contract stated in the source ("migration functions shouldn't change the
  object").
\<close>

type_synonym handler = "arg list \<Rightarrow> reaction"

text \<open>A call made inside a \<open>then\<close> callback: a throw rejects the chain.\<close>

fun settle :: "reaction \<Rightarrow> jsval outcome" where
  "settle r = (case ends r of Threw e \<Rightarrow> Rejected e | Rejected e \<Rightarrow> Rejected e
                | Resolved v \<Rightarrow> Resolved v)"

text \<open>A call that only ends: it leaves the record alone and defers nothing.\<close>

definition returns :: "jsval outcome \<Rightarrow> reaction" where
  "returns r = \<lparr>ends = r, edited = None, later = []\<rparr>"

lemma returns_simps [simp]:
  "ends (returns r) = r" "edited (returns r) = None" "later (returns r) = []"
  by (simp_all add: returns_def)

definition recordAfter :: "reaction \<Rightarrow> pobj \<Rightarrow> pobj" where
  "recordAfter r obj = (case edited r of None \<Rightarrow> obj | Some obj' \<Rightarrow> obj')"

section \<open>Helpers\<close>

fun classString :: "klass \<Rightarrow> string" where
  "classString (Name s) = s"
| "classString (Constructor c) = c"

definition def :: "'a option \<Rightarrow> bool" where
  "def symbol = (symbol \<noteq> None)"

text \<open>
  \<open>typeof(obj) === "object" && def(obj._applyOpSet)\<close>: \<open>typeof null\<close> is
  \<open>"object"\<close> and reading a property of \<open>null\<close> throws.
\<close>

fun isParseObject :: "jsval \<Rightarrow> error + bool" where
  "isParseObject JUndefined = Inr False"
| "isParseObject JNull = Inl TypeError"
| "isParseObject (JParse obj) = Inr True"
| "isParseObject JOther = Inr False"

definition ThisIsNotAResponseObject :: response_object where
  "ThisIsNotAResponseObject =
     \<lparr>success = (\<lambda>_. Threw (Thrown
         ''The migration tool expects you to return promises, not use callbacks'')),
      error = (\<lambda>_. Threw (Thrown
         ''The migration tool expecgts you to return promises, not use callbacks''))\<rparr>"

section \<open>TriggerRegistry\<close>

text \<open>
  \<open>_triggers\<close> is an object keyed by class name whose values are objects keyed by
  trigger type; its keys are enumerated in insertion order, so it is an association
  list, and the inner object is a function to optional callbacks (\<open>None\<close> is
  \<open>undefined\<close>). \<open>registerFn\<close> is the source's \<open>_registerFn\<close> and
  \<open>migrateClass\<close> its \<open>_migrateClass\<close>; a throw is the result \<open>Inl\<close>, which
  leaves \<open>_triggers\<close> as it was.
\<close>

type_synonym hset = "trigger_type \<Rightarrow> handler option"

type_synonym triggers = "(string \<times> hset) list"

definition no_handlers :: hset where
  "no_handlers = (\<lambda>_. None)"

definition registerFn ::
  "trigger_type \<Rightarrow> klass \<Rightarrow> handler option \<Rightarrow> triggers \<Rightarrow> error + triggers" where
  "registerFn triggerType klass callback T =
     (let key = classString klass;
          obj = (case map_of T key of Some h \<Rightarrow> h | None \<Rightarrow> no_handlers)
      in if def (obj triggerType) then Inl (AlreadyRegistered triggerType klass)
         else Inr (AList.update key (obj(triggerType := callback)) T))"

definition handlers :: "triggers \<Rightarrow> klass \<Rightarrow> hset" where
  "handlers T klass =
     (case map_of T (classString klass) of Some h \<Rightarrow> h | None \<Rightarrow> no_handlers)"

section \<open>The environment: clock, object store, observable events\<close>

text \<open>
  The clock is a sequence of readings, one per \<open>Date.now()\<close> or \<open>new Date()\<close>. The
  store is the list of all records in store order; \<open>saveError\<close> says for which
  records the store refuses a save.
\<close>

record world =
  clock :: "nat \<Rightarrow> int"
  reads :: nat
  rows :: "pobj list"
  saveError :: "pobj \<Rightarrow> error option"

text \<open>
  What a run does that can be observed from outside: a call of a user handler with the
  record it received, a call of a user handler without arguments, a save issued to the
  store, and a query issued to the store with the number of records it returned.
\<close>

datatype event =
  Invoke trigger_type pobj
  | InvokeBare trigger_type
  | Save pobj
  | Find string nat

definition Date_now :: "world \<Rightarrow> int \<times> world" where
  "Date_now w = (clock w (reads w), w\<lparr>reads := Suc (reads w)\<rparr>)"

text \<open>
  \<open>object.save()\<close> of a record that is in the store: on success every row of that
  class and objectId becomes the saved record, with no pending changes left. Creating
  rows is the host's business and not modelled.
\<close>

definition sameRow :: "pobj \<Rightarrow> pobj \<Rightarrow> bool" where
  "sameRow r obj = (className r = className obj \<and> objectId r = objectId obj)"

definition save :: "pobj \<Rightarrow> world \<Rightarrow> unit outcome \<times> world" where
  "save obj w =
     (case saveError w obj of
        Some e \<Rightarrow> (Rejected e, w)
      | None \<Rightarrow>
          (Resolved (),
           w\<lparr>rows := map (\<lambda>r. if sameRow r obj then obj\<lparr>dirty := []\<rparr> else r) (rows w)\<rparr>))"

text \<open>
  The query of the sweep:
  \<open>new Query(klass).notContainedIn(MIGRATION_KEY, [IS_MIGRATED, NEEDS_SECOND_PASS,
  FINISHED_SECOND_PASS]).limit(BATCH_SIZE)\<close>. A record without the key matches.
\<close>

definition unmigrated :: "string \<Rightarrow> pobj \<Rightarrow> bool" where
  "unmigrated klass r =
     (className r = klass \<and>
      (case get_obj r MIGRATION_KEY of
         None \<Rightarrow> True
       | Some v \<Rightarrow> v \<notin> set [IS_MIGRATED, NEEDS_SECOND_PASS, FINISHED_SECOND_PASS]))"

definition find_query :: "string \<Rightarrow> world \<Rightarrow> pobj list" where
  "find_query klass w = take BATCH_SIZE (filter (unmigrated klass) (rows w))"

section \<open>TriggerComposer\<close>

datatype 'a reply = Success 'a | Error error

definition shouldBeforeSave :: "hset \<Rightarrow> request \<Rightarrow> bool" where
  "shouldBeforeSave hs request =
     (let changed = dirtyKeys (object request)
      in def (hs BeforeSave) \<and> \<not> (length changed = 1 \<and> changed ! 0 = MIGRATION_KEY))"

text \<open>First \<open>then\<close> of \<open>getBeforeSave\<close>: the user's before-write handler, if it is due.\<close>

definition runBeforeSave :: "hset \<Rightarrow> request \<Rightarrow> jsval outcome \<times> event list" where
  "runBeforeSave hs request =
     (case hs BeforeSave of
        Some beforeSave \<Rightarrow>
          if shouldBeforeSave hs request
          then (settle (beforeSave [ARequest request, AResponse ThisIsNotAResponseObject]),
                [Invoke BeforeSave (object request)])
          else (Resolved JUndefined, [])
      | None \<Rightarrow> (Resolved JUndefined, []))"

text \<open>\<open>obj = isParseObject(maybeNew) ? maybeNew : request.object\<close>\<close>

definition workingObject :: "jsval \<Rightarrow> request \<Rightarrow> error + pobj" where
  "workingObject maybeNew request =
     (case isParseObject maybeNew of
        Inl e \<Rightarrow> Inl e
      | Inr b \<Rightarrow>
          Inr (case maybeNew of JParse obj \<Rightarrow> if b then obj else object request
               | _ \<Rightarrow> object request))"

text \<open>Second \<open>then\<close> of \<open>getBeforeSave\<close>, from the working record on.\<close>

definition migrateOnWrite :: "handler option \<Rightarrow> pobj \<Rightarrow> pobj outcome \<times> event list" where
  "migrateOnWrite migrate obj =
     (if get_obj obj MIGRATION_KEY = Some IS_MIGRATED \<or> \<not> def migrate then (Resolved obj, [])
      else if isNew obj then (Resolved obj, [])
      else
        let obj' = (if get_obj obj MIGRATION_KEY = Some NEEDS_SECOND_PASS
                    then set_obj MIGRATION_KEY FINISHED_SECOND_PASS obj
                    else set_obj MIGRATION_KEY IS_MIGRATED obj)
        in case migrate of
             None \<Rightarrow> (Resolved obj', [])
           | Some m \<Rightarrow>
               (case settle (m [AObject obj']) of
                  Resolved _ \<Rightarrow> (Resolved obj', [Invoke MigrateObject obj'])
                | Rejected e \<Rightarrow> (Rejected e, [Invoke MigrateObject obj'])
                | Threw e \<Rightarrow> (Rejected e, [Invoke MigrateObject obj'])))"

text \<open>
  The composed pre-write callback. Its result is the call it makes on the host's
  response object: \<open>response.success(obj)\<close> or \<open>response.error(err)\<close>.
\<close>

definition getBeforeSave :: "triggers \<Rightarrow> klass \<Rightarrow> request \<Rightarrow> pobj reply \<times> event list" where
  "getBeforeSave T klass request =
     (let hs = handlers T klass;
          migrate = hs MigrateObject;
          (r1, ev1) = runBeforeSave hs request
      in case r1 of
           Resolved maybeNew \<Rightarrow>
             (case workingObject maybeNew request of
                Inl e \<Rightarrow> (Error e, ev1)
              | Inr obj \<Rightarrow>
                  (case migrateOnWrite migrate obj of
                     (Resolved obj', ev2) \<Rightarrow> (Success obj', ev1 @ ev2)
                   | (Rejected e, ev2) \<Rightarrow> (Error e, ev1 @ ev2)
                   | (Threw e, ev2) \<Rightarrow> (Error e, ev1 @ ev2)))
         | Rejected e \<Rightarrow> (Error e, ev1)
         | Threw e \<Rightarrow> (Error e, ev1))"

definition maybeTouch :: "handler option \<Rightarrow> pobj \<Rightarrow> world \<Rightarrow> unit outcome \<times> event list \<times> world" where
  "maybeTouch migrate obj w =
     (if existed obj \<or> \<not> def migrate then (Resolved (), [], w)
      else
        let obj' = set_obj MIGRATION_KEY NEEDS_SECOND_PASS obj;
            (r, w') = save obj' w
        in (r, [Save obj'], w'))"

text \<open>
  The composed post-write callback. \<open>afterSave(request)\<close> is evaluated first, outside
  of any \<open>then\<close>: if it throws, \<open>maybeTouch\<close> is never called; if it returns,
  \<open>maybeTouch\<close> gets \<open>request.object\<close> as the call left it. \<open>Promise.all\<close>
  rejects when one of the two rejects.
\<close>

definition getAfterSave ::
  "triggers \<Rightarrow> klass \<Rightarrow> request \<Rightarrow> world \<Rightarrow> unit outcome \<times> event list \<times> world" where
  "getAfterSave T klass request w =
     (let hs = handlers T klass;
          migrate = hs MigrateObject
      in case hs AfterSave of
           None \<Rightarrow> maybeTouch migrate (object request) w
         | Some afterSave \<Rightarrow>
             (let called = afterSave [ARequest request];
                  obj = recordAfter called (object request)
              in case ends called of
                   Threw e \<Rightarrow> (Threw e, [Invoke AfterSave (object request)], w)
                 | Rejected e \<Rightarrow>
                     (let (r, ev, w') = maybeTouch migrate obj w
                      in (Rejected e, Invoke AfterSave (object request) # ev, w'))
                 | Resolved _ \<Rightarrow>
                     (let (r, ev, w') = maybeTouch migrate obj w
                      in (r, Invoke AfterSave (object request) # ev, w'))))"

text \<open>
  The composed pre-delete callback. \<open>migrateDelete\<close> gets \<open>request.object\<close> as
  \<open>beforeDelete\<close> left it.
\<close>

definition getBeforeDelete :: "triggers \<Rightarrow> klass \<Rightarrow> request \<Rightarrow> unit reply \<times> event list" where
  "getBeforeDelete T klass request =
     (let hs = handlers T klass;
          (r1, obj, ev1) =
            (case hs BeforeDelete of
               None \<Rightarrow> (Resolved JUndefined, object request, [])
             | Some beforeDelete \<Rightarrow>
                 (settle (beforeDelete [ARequest request, AResponse ThisIsNotAResponseObject]),
                  recordAfter (beforeDelete [ARequest request, AResponse ThisIsNotAResponseObject])
                    (object request),
                  [Invoke BeforeDelete (object request)]))
      in case r1 of
           Resolved _ \<Rightarrow>
             (case hs MigrateDelete of
                None \<Rightarrow> (Success (), ev1)
              | Some migrateDelete \<Rightarrow>
                  (case settle (migrateDelete [AObject obj]) of
                     Resolved _ \<Rightarrow> (Success (), ev1 @ [Invoke MigrateDelete obj])
                   | Rejected e \<Rightarrow> (Error e, ev1 @ [Invoke MigrateDelete obj])
                   | Threw e \<Rightarrow> (Error e, ev1 @ [Invoke MigrateDelete obj])))
         | Rejected e \<Rightarrow> (Error e, ev1)
         | Threw e \<Rightarrow> (Error e, ev1))"

text \<open>\<open>Promise.as().then(afterDelete)\<close>: the handler is called without a request.\<close>

definition getAfterDelete :: "triggers \<Rightarrow> klass \<Rightarrow> request \<Rightarrow> jsval outcome \<times> event list" where
  "getAfterDelete T klass request =
     (case handlers T klass AfterDelete of
        None \<Rightarrow> (Resolved JUndefined, [])
      | Some afterDelete \<Rightarrow> (settle (afterDelete []), [InvokeBare AfterDelete]))"

section \<open>SweepDriver\<close>

text \<open>
  What \<open>Date.now() > deadline\<close> compares with: a number, \<open>undefined\<close> (the
  parameter was not passed), or the text that \<open>new Date() + MAXIMUM_DURATION\<close>
  builds, the rendering of a date followed by the digits of a number. The last two
  convert to NaN, and every comparison with NaN is false.
\<close>

datatype deadline_val = DUndefined | DNumber int | DDateText int int

fun js_gt :: "int \<Rightarrow> deadline_val \<Rightarrow> bool" where
  "js_gt now (DNumber d) = (now > d)"
| "js_gt now DUndefined = False"
| "js_gt now (DDateText t n) = False"

text \<open>
  One record of a batch: \<open>Promise.as().then(migration(object)).then(set; save)\<close>.
\<close>

definition migrateRecord ::
  "handler \<Rightarrow> pobj \<Rightarrow> world \<Rightarrow> unit outcome \<times> event list \<times> world" where
  "migrateRecord migration obj w =
     (case settle (migration [AObject obj]) of
        Resolved _ \<Rightarrow>
          (let obj' = set_obj MIGRATION_KEY IS_MIGRATED obj;
               (r, w') = save obj' w
           in (r, [Invoke MigrateObject obj, Save obj'], w'))
      | Rejected e \<Rightarrow> (Rejected e, [Invoke MigrateObject obj], w)
      | Threw e \<Rightarrow> (Rejected e, [Invoke MigrateObject obj], w))"

text \<open>
  \<open>_.map(objects, ...)\<close>: the records of a batch run concurrently; the model takes
  them one after the other, in the order of the query result.
\<close>

fun migrations ::
  "handler \<Rightarrow> pobj list \<Rightarrow> world \<Rightarrow> unit outcome list \<times> event list \<times> world" where
  "migrations migration [] w = ([], [], w)"
| "migrations migration (obj # objects) w =
     (let (r, ev, w1) = migrateRecord migration obj w;
          (rs, evs, w2) = migrations migration objects w1
      in (r # rs, ev @ evs, w2))"

fun rejection :: "'a outcome \<Rightarrow> error option" where
  "rejection (Resolved _) = None"
| "rejection (Rejected e) = Some e"
| "rejection (Threw e) = Some e"

text \<open>
  \<open>Promise.when(migrations).then(() => migrations.length)\<close>: \<open>when\<close> waits for all
  promises and rejects if one of them did.
\<close>

definition whenAll :: "unit outcome list \<Rightarrow> nat outcome" where
  "whenAll ms =
     (if \<forall>r \<in> set ms. rejection r = None then Resolved (length ms)
      else Rejected (BatchErrors (map rejection ms)))"

definition batch ::
  "string \<Rightarrow> handler \<Rightarrow> world \<Rightarrow> nat outcome \<times> event list \<times> world" where
  "batch klass migration w =
     (let objects = find_query klass w;
          (ms, ev, w') = migrations migration objects w
      in (whenAll ms, Find klass (length objects) # ev, w'))"

definition remaining :: "string \<Rightarrow> world \<Rightarrow> nat" where
  "remaining klass w = length (filter (unmigrated klass) (rows w))"


subsection \<open>A full batch leaves fewer unmigrated records\<close>

definition settled :: "pobj \<Rightarrow> pobj \<Rightarrow> bool" where
  "settled r r' = (className r' = className r \<and> objectId r' = objectId r \<and>
     (r' = r \<or> get_obj r' MIGRATION_KEY = Some IS_MIGRATED))"

lemma settled_refl: "settled r r"
  by (simp add: settled_def)

lemma settled_trans: "settled a b \<Longrightarrow> settled b c \<Longrightarrow> settled a c"
  by (auto simp: settled_def)

lemma get_set_obj: "get_obj (set_obj k v obj) k' = (if k' = k then Some v else get_obj obj k')"
  by (simp add: get_obj_def set_obj_def update_conv')

lemma save_rows:
  assumes "save (set_obj MIGRATION_KEY IS_MIGRATED obj) w = (r, w')"
  shows "list_all2 settled (rows w) (rows w')"
    and "saveError w' = saveError w" and "clock w' = clock w" and "reads w' = reads w"
    and "r = Resolved () \<Longrightarrow>
           \<forall>x \<in> set (rows w'). sameRow x obj \<longrightarrow> get_obj x MIGRATION_KEY = Some IS_MIGRATED"
  using assms
  by (auto simp: save_def list_all2_conv_all_nth settled_def sameRow_def
      get_obj_def set_obj_def update_conv' split: option.splits if_splits)


lemma migrateRecord_rows:
  assumes "migrateRecord m obj w = (r, ev, w')"
  shows "list_all2 settled (rows w) (rows w')"
    and "saveError w' = saveError w" and "clock w' = clock w" and "reads w' = reads w"
    and "rejection r = None \<Longrightarrow>
           \<forall>x \<in> set (rows w'). sameRow x obj \<longrightarrow> get_obj x MIGRATION_KEY = Some IS_MIGRATED"
proof -
  show "list_all2 settled (rows w) (rows w')"
    using assms save_rows(1)
    by (auto simp: migrateRecord_def Let_def list_all2_refl settled_refl
        split: outcome.splits prod.splits)
  show "saveError w' = saveError w" "clock w' = clock w" "reads w' = reads w"
    using assms save_rows(2-4)
    by (auto simp: migrateRecord_def Let_def split: outcome.splits prod.splits)
  assume "rejection r = None"
  then have r: "r = Resolved ()"
    by (cases r) simp_all
  with assms have "save (set_obj MIGRATION_KEY IS_MIGRATED obj) w = (Resolved (), w')"
    by (auto simp: migrateRecord_def Let_def split: outcome.splits prod.splits)
  then show "\<forall>x \<in> set (rows w'). sameRow x obj \<longrightarrow> get_obj x MIGRATION_KEY = Some IS_MIGRATED"
    by (rule save_rows(5)) simp
qed

lemma settled_sameRow: "settled r r' \<Longrightarrow> sameRow r' obj = sameRow r obj"
  by (simp add: settled_def sameRow_def)

lemma migrations_rows:
  "migrations m objs w = (rs, ev, w') \<Longrightarrow>
     list_all2 settled (rows w) (rows w') \<and> length rs = length objs \<and>
     saveError w' = saveError w \<and> clock w' = clock w \<and> reads w' = reads w \<and>
     ((\<forall>r \<in> set rs. rejection r = None) \<longrightarrow>
        (\<forall>obj \<in> set objs. \<forall>x \<in> set (rows w').
           sameRow x obj \<longrightarrow> get_obj x MIGRATION_KEY = Some IS_MIGRATED))"
proof (induction objs arbitrary: w rs ev w')
  case Nil
  then show ?case by (simp add: list_all2_refl settled_refl)
next
  case (Cons obj objs)
  obtain r e1 w1 where one: "migrateRecord m obj w = (r, e1, w1)"
    by (metis prod_cases3)
  obtain rs' e2 w2 where rest: "migrations m objs w1 = (rs', e2, w2)"
    by (metis prod_cases3)
  from Cons.prems one rest have eq: "rs = r # rs'" "w' = w2"
    by simp_all
  note ih = Cons.IH [OF rest]
  note h = migrateRecord_rows [OF one]
  have a: "list_all2 settled (rows w) (rows w')"
    using h(1) ih eq by (blast intro: list_all2_trans settled_trans)
  have b: "\<forall>x \<in> set (rows w'). sameRow x obj \<longrightarrow> get_obj x MIGRATION_KEY = Some IS_MIGRATED"
    if ok: "rejection r = None"
  proof (intro ballI impI)
    fix x assume x: "x \<in> set (rows w')" "sameRow x obj"
    then obtain i where i: "i < length (rows w')" "rows w' ! i = x"
      by (auto simp: in_set_conv_nth)
    from ih eq have l: "list_all2 settled (rows w1) (rows w')" by simp
    then have s: "settled (rows w1 ! i) x" and len: "i < length (rows w1)"
      using i by (auto simp: list_all2_conv_all_nth)
    then have "sameRow (rows w1 ! i) obj"
      using x(2) settled_sameRow by blast
    then have "get_obj (rows w1 ! i) MIGRATION_KEY = Some IS_MIGRATED"
      using h(5) [OF ok] len by simp
    with s show "get_obj x MIGRATION_KEY = Some IS_MIGRATED"
      by (auto simp: settled_def)
  qed
  show ?case
    using a b ih h eq by auto
qed

lemma filter_length_less:
  assumes "length ys = length xs"
    and "\<forall>j < length xs. P (ys ! j) \<longrightarrow> P (xs ! j)"
    and "i < length xs" "P (xs ! i)" "\<not> P (ys ! i)"
  shows "length (filter P ys) < length (filter P xs)"
proof -
  have "{j. j < length ys \<and> P (ys ! j)} \<subset> {j. j < length xs \<and> P (xs ! j)}"
    using assms by auto
  then have "card {j. j < length ys \<and> P (ys ! j)} < card {j. j < length xs \<and> P (xs ! j)}"
    by (simp add: psubset_card_mono)
  then show ?thesis
    by (simp add: length_filter_conv_card)
qed

lemma settled_unmigrated: "settled r r' \<Longrightarrow> unmigrated klass r' \<Longrightarrow> r' = r"
  by (auto simp: settled_def unmigrated_def)

lemma whenAll_Resolved: "whenAll ms = Resolved n \<longleftrightarrow> (\<forall>r \<in> set ms. rejection r = None) \<and> n = length ms"
  by (auto simp: whenAll_def)

lemma batch_full_decreases:
  assumes "batch klass m w = (Resolved n, ev, w')" and "0 < n"
  shows "remaining klass w' < remaining klass w"
proof -
  obtain ms e where run: "migrations m (find_query klass w) w = (ms, e, w')"
    and res: "whenAll ms = Resolved n"
    using assms(1) by (auto simp: batch_def Let_def split: prod.splits)
  note h = migrations_rows [OF run]
  from res have ok: "\<forall>r \<in> set ms. rejection r = None" and n: "n = length ms"
    by (simp_all add: whenAll_Resolved)
  with h assms(2) have "find_query klass w \<noteq> []" by auto
  then obtain obj where obj: "obj \<in> set (find_query klass w)"
    by (cases "find_query klass w") auto
  then have "obj \<in> set (rows w)" "unmigrated klass obj"
    by (auto simp: find_query_def dest: in_set_takeD)
  then obtain i where i: "i < length (rows w)" "rows w ! i = obj"
    by (auto simp: in_set_conv_nth)
  from h have l: "list_all2 settled (rows w) (rows w')" by simp
  then have len: "length (rows w') = length (rows w)"
    by (simp add: list_all2_lengthD)
  have mono: "\<forall>j < length (rows w). unmigrated klass (rows w' ! j) \<longrightarrow> unmigrated klass (rows w ! j)"
    using l settled_unmigrated by (fastforce simp: list_all2_conv_all_nth)
  have "settled obj (rows w' ! i)"
    using l i by (auto simp: list_all2_conv_all_nth)
  then have "sameRow (rows w' ! i) obj"
    by (simp add: settled_def sameRow_def)
  then have "get_obj (rows w' ! i) MIGRATION_KEY = Some IS_MIGRATED"
    using h ok obj i len by (metis nth_mem)
  then have "\<not> unmigrated klass (rows w' ! i)"
    by (simp add: unmigrated_def)
  then show ?thesis
    unfolding remaining_def
    using filter_length_less [OF len mono i(1)] i(2) \<open>unmigrated klass obj\<close> by simp
qed

lemma remaining_Date_now: "remaining klass (snd (Date_now w)) = remaining klass w"
  by (simp add: remaining_def Date_now_def)

function migrateClass ::
  "string \<Rightarrow> handler \<Rightarrow> deadline_val \<Rightarrow> world \<Rightarrow> nat outcome \<times> event list \<times> world" where
  "migrateClass klass migration deadline w =
     (if js_gt (fst (Date_now w)) deadline then (Resolved 0, [], snd (Date_now w))
      else
        case batch klass migration (snd (Date_now w)) of
          (Resolved migrated, ev, w') \<Rightarrow>
            if migrated = BATCH_SIZE
            then (case migrateClass klass migration deadline w' of
                    (Resolved accum, ev', w'') \<Rightarrow> (Resolved (accum + migrated), ev @ ev', w'')
                  | (Rejected e, ev', w'') \<Rightarrow> (Rejected e, ev @ ev', w'')
                  | (Threw e, ev', w'') \<Rightarrow> (Rejected e, ev @ ev', w''))
            else (Resolved migrated, ev, w')
        | (Rejected e, ev, w') \<Rightarrow> (Rejected e, ev, w')
        | (Threw e, ev, w') \<Rightarrow> (Rejected e, ev, w'))"
  by pat_completeness auto

termination
proof (relation "measure (\<lambda>(klass, migration, deadline, w). remaining klass w)")
  show "wf (measure (\<lambda>(klass, migration, deadline, w). remaining klass w))"
    by simp
next
  fix klass migration deadline w x y x1 xa ya
  assume "(x, y) = batch klass migration (snd (Date_now w))" "x = Resolved x1"
    "(xa, ya) = y" "x1 = BATCH_SIZE"
  then have "batch klass migration (snd (Date_now w)) = (Resolved BATCH_SIZE, xa, ya)"
    by simp
  then have "remaining klass ya < remaining klass w"
    using batch_full_decreases [of klass migration "snd (Date_now w)" BATCH_SIZE xa ya]
    by (simp add: BATCH_SIZE_def remaining_Date_now)
  then show "((klass, migration, deadline, ya), klass, migration, deadline, w)
      \<in> measure (\<lambda>(klass, migration, deadline, w). remaining klass w)"
    by simp
qed

declare migrateClass.simps [simp del]

text \<open>
  The import job. \<open>deadline\<close> is computed and never used: \<open>_migrateClass\<close> is
  called with two arguments, so its \<open>deadline\<close> parameter is \<open>undefined\<close>. The
  chain built by \<open>_.each\<close> runs the classes with a migrate handler one after the
  other; after a rejection the remaining \<open>then\<close> callbacks are skipped.
\<close>

fun importClasses ::
  "triggers \<Rightarrow> nat outcome \<Rightarrow> nat \<Rightarrow> world \<Rightarrow> nat outcome \<times> nat \<times> event list \<times> world" where
  "importClasses [] lastMigration totalMigrated w = (lastMigration, totalMigrated, [], w)"
| "importClasses ((klass, hs) # rest) lastMigration totalMigrated w =
     (case hs MigrateObject of
        None \<Rightarrow> importClasses rest lastMigration totalMigrated w
      | Some migrateObject \<Rightarrow>
          (case lastMigration of
             Resolved migrated \<Rightarrow>
               (let (r, ev, w1) = migrateClass klass migrateObject DUndefined w;
                    (r', totalMigrated', ev', w2) =
                      importClasses rest r (totalMigrated + migrated) w1
                in (r', totalMigrated', ev @ ev', w2))
           | Rejected e \<Rightarrow> importClasses rest lastMigration totalMigrated w
           | Threw e \<Rightarrow> importClasses rest lastMigration totalMigrated w))"

text \<open>
  What the job tells the status sink: \<open>status.success(message)\<close>, returning the
  total, or \<open>status.error(error)\<close>.
\<close>

datatype status = StatusSuccess string nat | StatusError error

definition getImportJob :: "triggers \<Rightarrow> world \<Rightarrow> status \<times> event list \<times> world" where
  "getImportJob T w =
     (let (t, w0) = Date_now w;
          deadline = DDateText t MAXIMUM_DURATION;
          (lastMigration, totalMigrated, ev, w') = importClasses T (Resolved 0) 0 w0
      in case lastMigration of
           Resolved migrated \<Rightarrow>
             (let totalMigrated' = totalMigrated + migrated;
                  message = (if totalMigrated' = 0 then ''Completed initial import!''
                             else ''Done with an import pass'')
              in (StatusSuccess message totalMigrated', ev, w'))
         | Rejected e \<Rightarrow> (StatusError e, ev, w')
         | Threw e \<Rightarrow> (StatusError e, ev, w'))"

section \<open>Installing the triggers\<close>

text \<open>The calls \<open>exportTriggers\<close> makes on the host, each with the callback it installs.\<close>

datatype installed =
  CloudBeforeSave string "request \<Rightarrow> pobj reply \<times> event list"
  | CloudAfterSave string "request \<Rightarrow> world \<Rightarrow> unit outcome \<times> event list \<times> world"
  | CloudBeforeDelete string "request \<Rightarrow> unit reply \<times> event list"
  | CloudAfterDelete string "request \<Rightarrow> jsval outcome \<times> event list"
  | CloudJob string "world \<Rightarrow> status \<times> event list \<times> world"

definition exportClass :: "triggers \<Rightarrow> string \<times> hset \<Rightarrow> installed list" where
  "exportClass T = (\<lambda>(klass, hs).
     (if def (hs BeforeSave) \<or> def (hs MigrateObject)
      then [CloudBeforeSave klass (getBeforeSave T (Name klass))] else []) @
     (if def (hs AfterSave) \<or> def (hs MigrateObject)
      then [CloudAfterSave klass (getAfterSave T (Name klass))] else []) @
     (if def (hs BeforeDelete) \<or> def (hs MigrateDelete)
      then [CloudBeforeDelete klass (getBeforeDelete T (Name klass))] else []) @
     (if def (hs AfterDelete)
      then [CloudAfterDelete klass (getAfterDelete T (Name klass))] else []))"

definition exportTriggers :: "triggers \<Rightarrow> installed list" where
  "exportTriggers T = concat (map (exportClass T) T) @ [CloudJob ''import'' (getImportJob T)]"

text \<open>
  The registration API is used by a start-up script: registrations in sequence on a
  fresh migrator, then \<open>exportTriggers\<close>. A throw ends the script (a script that
  catches it and goes on is not modelled); \<open>startup\<close> gives the error, if any, and
  what was installed with the host.
\<close>

datatype registration = Register trigger_type klass "handler option"

fun registerAll :: "registration list \<Rightarrow> triggers \<Rightarrow> error + triggers" where
  "registerAll [] T = Inr T"
| "registerAll (Register triggerType klass callback # rest) T =
     (case registerFn triggerType klass callback T of
        Inl e \<Rightarrow> Inl e
      | Inr T' \<Rightarrow> registerAll rest T')"

definition startup :: "registration list \<Rightarrow> error option \<times> installed list" where
  "startup script =
     (case registerAll script [] of
        Inl e \<Rightarrow> (Some e, [])
      | Inr T \<Rightarrow> (None, exportTriggers T))"

section \<open>Registry properties\<close>

lemma handlers_registerFn:
  "registerFn t k cb T = Inr T' \<Longrightarrow>
     handlers T' k' =
       (if classString k' = classString k then (handlers T k)(t := cb) else handlers T k')"
  by (auto simp: registerFn_def handlers_def Let_def update_conv' split: if_splits)

lemma registerFn_defined:
  "def (handlers T k t) \<Longrightarrow> registerFn t k cb T = Inl (AlreadyRegistered t k)"
  by (simp add: registerFn_def handlers_def Let_def)

text \<open>
  C9: registration and lookup go through \<open>classString\<close>. For a name and a
  constructor with the same class string, \<open>handlers\<close> returns the same set, and after
  a handler of some kind was registered under one form, registering that kind under the
  other form throws the duplicate error.
\<close>

theorem classString_keys_registry:
  "classString k1 = classString k2 \<Longrightarrow>
     handlers T k1 = handlers T k2 \<and>
     (registerFn t k1 (Some h) T = Inr T' \<longrightarrow>
        registerFn t k2 cb T' = Inl (AlreadyRegistered t k2))"
proof (intro conjI impI)
  assume same: "classString k1 = classString k2"
  then show "handlers T k1 = handlers T k2"
    by (simp add: handlers_def)
  assume "registerFn t k1 (Some h) T = Inr T'"
  then have "handlers T' k2 t = Some h"
    using same by (simp add: handlers_registerFn)
  then show "registerFn t k2 cb T' = Inl (AlreadyRegistered t k2)"
    by (simp add: registerFn_defined def_def)
qed

theorem classString_keys_registry_witness:
  "classString (Name ''Widget'') = classString (Constructor ''Widget'') \<and>
   handlers [] (Name ''Widget'') = handlers [] (Constructor ''Widget'') \<and>
   registerFn BeforeSave (Name ''Widget'') (Some (\<lambda>_. returns (Resolved JUndefined))) []
     = Inr [(''Widget'', no_handlers(BeforeSave := Some (\<lambda>_. returns (Resolved JUndefined))))] \<and>
   registerFn BeforeSave (Constructor ''Widget'') (Some (\<lambda>_. returns (Resolved JOther)))
       [(''Widget'', no_handlers(BeforeSave := Some (\<lambda>_. returns (Resolved JUndefined))))]
     = Inl (AlreadyRegistered BeforeSave (Constructor ''Widget''))"
  using classString_keys_registry [of "Name ''Widget''" "Constructor ''Widget''" "[]"
      BeforeSave "\<lambda>_. returns (Resolved JUndefined)"
      "[(''Widget'', no_handlers(BeforeSave := Some (\<lambda>_. returns (Resolved JUndefined))))]"
      "Some (\<lambda>_. returns (Resolved JOther))"]
  by (simp add: registerFn_def no_handlers_def def_def)

section \<open>Properties of the composed pre-write callback\<close>

lemma runBeforeSave_events:
  "snd (runBeforeSave hs request) =
     (if shouldBeforeSave hs request then [Invoke BeforeSave (object request)] else [])"
  by (auto simp: runBeforeSave_def shouldBeforeSave_def def_def Let_def split: option.splits)

lemma runBeforeSave_settled: "fst (runBeforeSave hs request) \<noteq> Threw e"
proof -
  have "settle r \<noteq> Threw e" for r
    by (cases "ends r") simp_all
  then show ?thesis
    by (simp add: runBeforeSave_def split: option.splits)
qed

lemma migrateOnWrite_events:
  "snd (migrateOnWrite migrate obj) = [] \<or>
   (\<exists>obj'. snd (migrateOnWrite migrate obj) = [Invoke MigrateObject obj'])"
  by (auto simp: migrateOnWrite_def Let_def split: option.splits outcome.splits)

lemma getBeforeSave_working:
  assumes "fst (runBeforeSave (handlers T klass) request) = Resolved maybeNew"
    and "workingObject maybeNew request = Inr obj"
  shows "getBeforeSave T klass request =
     (case fst (migrateOnWrite (handlers T klass MigrateObject) obj) of
        Resolved obj' \<Rightarrow> Success obj' | Rejected e \<Rightarrow> Error e | Threw e \<Rightarrow> Error e,
      snd (runBeforeSave (handlers T klass) request) @
      snd (migrateOnWrite (handlers T klass MigrateObject) obj))"
  using assms
  by (cases "runBeforeSave (handlers T klass) request";
      cases "migrateOnWrite (handlers T klass MigrateObject) obj")
    (auto simp: getBeforeSave_def Let_def split: outcome.splits)

lemma getBeforeSave_no_working:
  assumes "\<And>maybeNew obj. fst (runBeforeSave (handlers T klass) request) = Resolved maybeNew \<Longrightarrow>
     workingObject maybeNew request \<noteq> Inr obj"
  shows "snd (getBeforeSave T klass request) = snd (runBeforeSave (handlers T klass) request)"
  using assms
  by (cases "runBeforeSave (handlers T klass) request")
    (auto simp: getBeforeSave_def Let_def split: outcome.splits sum.splits)

text \<open>
  C7: a write whose changed fields are exactly \<open>migrationStatus\<close> does not call the
  user's before-write handler.
\<close>

theorem bookkeeping_write_skips_beforeSave:
  "dirtyKeys (object request) = [MIGRATION_KEY] \<Longrightarrow>
     \<forall>obj. Invoke BeforeSave obj \<notin> set (snd (getBeforeSave T klass request))"
proof
  fix obj
  assume "dirtyKeys (object request) = [MIGRATION_KEY]"
  then have no: "runBeforeSave (handlers T klass) request = (Resolved JUndefined, [])"
    by (simp add: runBeforeSave_def shouldBeforeSave_def split: option.splits)
  have w: "workingObject JUndefined request = Inr (object request)"
    by (simp add: workingObject_def)
  have "snd (getBeforeSave T klass request) =
      snd (migrateOnWrite (handlers T klass MigrateObject) (object request))"
    using getBeforeSave_working [of T klass request JUndefined "object request"] no w by simp
  then show "Invoke BeforeSave obj \<notin> set (snd (getBeforeSave T klass request))"
    using migrateOnWrite_events [of "handlers T klass MigrateObject" "object request"] by auto
qed

definition widget :: pobj where
  "widget = \<lparr>className = ''Widget'', objectId = Some ''w1'', existedFlag = True,
             attributes = [], dirty = []\<rparr>"

theorem bookkeeping_write_skips_beforeSave_witness:
  "dirtyKeys (object \<lparr>object = set_obj MIGRATION_KEY NEEDS_SECOND_PASS widget\<rparr>) = [MIGRATION_KEY] \<and>
   (\<forall>obj. Invoke BeforeSave obj \<notin> set (snd (getBeforeSave
      [(''Widget'', no_handlers(BeforeSave := Some (\<lambda>_. returns (Rejected (Thrown ''no'')))))]
      (Name ''Widget'') \<lparr>object = set_obj MIGRATION_KEY NEEDS_SECOND_PASS widget\<rparr>)))"
  using bookkeeping_write_skips_beforeSave
    [of "\<lparr>object = set_obj MIGRATION_KEY NEEDS_SECOND_PASS widget\<rparr>"
      "[(''Widget'', no_handlers(BeforeSave := Some (\<lambda>_. returns (Rejected (Thrown ''no'')))))]"
      "Name ''Widget''"]
  by (simp add: dirtyKeys_def set_obj_def widget_def)


lemma migrateOnWrite_migrates:
  assumes "migrate = Some m" and "\<not> isNew obj"
    and "get_obj obj MIGRATION_KEY \<noteq> Some IS_MIGRATED"
  shows "migrateOnWrite migrate obj =
     (let obj' = (if get_obj obj MIGRATION_KEY = Some NEEDS_SECOND_PASS
                  then set_obj MIGRATION_KEY FINISHED_SECOND_PASS obj
                  else set_obj MIGRATION_KEY IS_MIGRATED obj)
      in (case settle (m [AObject obj']) of
            Resolved _ \<Rightarrow> Resolved obj' | Rejected e \<Rightarrow> Rejected e | Threw e \<Rightarrow> Rejected e,
          [Invoke MigrateObject obj']))"
  using assms by (simp add: migrateOnWrite_def def_def Let_def split: outcome.splits)

lemma isNew_set_obj: "isNew (set_obj k v obj) = isNew obj"
  by (simp add: isNew_def set_obj_def)

text \<open>
  C4: a persisted record without a status, of a type with a migrate handler. When the
  record that reaches the migration step of the pre-write callback (the request's
  record, or the one the user's before-write handler handed over) is such a record,
  the callback sets its status to \<open>IS_MIGRATED\<close>, calls the migrate handler once, on
  the record with the new status, and calls no other handler after that; if the
  migrate handler resolves, \<open>response.success\<close> receives the record with the new
  status, and if it fails, \<open>response.error\<close> receives the failure.
\<close>

theorem existing_record_migrated_on_write:
  assumes "handlers T klass MigrateObject = Some m"
    and "fst (runBeforeSave (handlers T klass) request) = Resolved maybeNew"
    and "workingObject maybeNew request = Inr obj"
    and "\<not> isNew obj" and "get_obj obj MIGRATION_KEY = None"
  shows "snd (getBeforeSave T klass request) =
           snd (runBeforeSave (handlers T klass) request) @
           [Invoke MigrateObject (set_obj MIGRATION_KEY IS_MIGRATED obj)] \<and>
         get_obj (set_obj MIGRATION_KEY IS_MIGRATED obj) MIGRATION_KEY = Some IS_MIGRATED \<and>
         fst (getBeforeSave T klass request) =
           (case settle (m [AObject (set_obj MIGRATION_KEY IS_MIGRATED obj)]) of
              Resolved _ \<Rightarrow> Success (set_obj MIGRATION_KEY IS_MIGRATED obj)
            | Rejected e \<Rightarrow> Error e
            | Threw e \<Rightarrow> Error e)"
proof -
  have "migrateOnWrite (Some m) obj =
      (case settle (m [AObject (set_obj MIGRATION_KEY IS_MIGRATED obj)]) of
         Resolved _ \<Rightarrow> Resolved (set_obj MIGRATION_KEY IS_MIGRATED obj)
       | Rejected e \<Rightarrow> Rejected e | Threw e \<Rightarrow> Rejected e,
       [Invoke MigrateObject (set_obj MIGRATION_KEY IS_MIGRATED obj)])"
    using assms(4,5) by (simp add: migrateOnWrite_migrates Let_def)
  then show ?thesis
    using getBeforeSave_working [OF assms(2,3)] assms(1)
    by (simp add: get_set_obj split: outcome.splits)
qed

definition ok_handler :: handler where
  "ok_handler = (\<lambda>_. returns (Resolved JUndefined))"

theorem existing_record_migrated_on_write_witness:
  "handlers [(''Widget'', no_handlers(MigrateObject := Some ok_handler))] (Name ''Widget'')
     MigrateObject = Some ok_handler \<and>
   fst (runBeforeSave (handlers [(''Widget'', no_handlers(MigrateObject := Some ok_handler))]
     (Name ''Widget'')) \<lparr>object = widget\<rparr>) = Resolved JUndefined \<and>
   workingObject JUndefined \<lparr>object = widget\<rparr> = Inr widget \<and>
   \<not> isNew widget \<and> get_obj widget MIGRATION_KEY = None \<and>
   getBeforeSave [(''Widget'', no_handlers(MigrateObject := Some ok_handler))] (Name ''Widget'')
     \<lparr>object = widget\<rparr> =
     (Success (set_obj MIGRATION_KEY IS_MIGRATED widget),
      [Invoke MigrateObject (set_obj MIGRATION_KEY IS_MIGRATED widget)])"
  using existing_record_migrated_on_write
    [of "[(''Widget'', no_handlers(MigrateObject := Some ok_handler))]" "Name ''Widget''"
      ok_handler "\<lparr>object = widget\<rparr>" JUndefined widget]
  by (simp add: handlers_def no_handlers_def runBeforeSave_def workingObject_def isNew_def
      get_obj_def widget_def ok_handler_def prod_eq_iff)


lemma status_distinct:
  "NEEDS_SECOND_PASS \<noteq> IS_MIGRATED" "FINISHED_SECOND_PASS \<noteq> IS_MIGRATED"
  "FINISHED_SECOND_PASS \<noteq> NEEDS_SECOND_PASS"
  by (simp_all add: IS_MIGRATED_def FINISHED_SECOND_PASS_def NEEDS_SECOND_PASS_def)

lemma migrateOnWrite_is_migrated:
  "get_obj obj MIGRATION_KEY = Some IS_MIGRATED \<Longrightarrow> migrateOnWrite migrate obj = (Resolved obj, [])"
  by (simp add: migrateOnWrite_def)

lemma migrateOnWrite_isNew:
  "isNew obj \<Longrightarrow> migrateOnWrite migrate obj = (Resolved obj, [])"
  by (simp add: migrateOnWrite_def)

lemma runBeforeSave_no_migrate: "Invoke MigrateObject x \<notin> set (snd (runBeforeSave hs request))"
  by (simp add: runBeforeSave_events)

text \<open>
  C2, as amended. When every record that can reach the migration step of a write (the
  request's record, or the one the user's before-write handler handed over) has the
  status \<open>IS_MIGRATED\<close>, the write never calls the migrate handler. A persisted
  record with the status \<open>FINISHED_SECOND_PASS\<close> is treated like an unmigrated one:
  its next write sets \<open>IS_MIGRATED\<close> and calls the migrate handler once more.
\<close>

theorem migrated_record_not_migrated_again:
  "((\<forall>maybeNew obj. fst (runBeforeSave (handlers T klass) request) = Resolved maybeNew \<longrightarrow>
        workingObject maybeNew request = Inr obj \<longrightarrow>
        get_obj obj MIGRATION_KEY = Some IS_MIGRATED) \<longrightarrow>
     (\<forall>x. Invoke MigrateObject x \<notin> set (snd (getBeforeSave T klass request)))) \<and>
   (handlers T klass MigrateObject = Some m \<and>
    fst (runBeforeSave (handlers T klass) request) = Resolved maybeNew' \<and>
    workingObject maybeNew' request = Inr obj' \<and> \<not> isNew obj' \<and>
    get_obj obj' MIGRATION_KEY = Some FINISHED_SECOND_PASS \<longrightarrow>
      snd (getBeforeSave T klass request) =
        snd (runBeforeSave (handlers T klass) request) @
        [Invoke MigrateObject (set_obj MIGRATION_KEY IS_MIGRATED obj')])"
proof (intro conjI impI allI)
  fix x
  assume h: "\<forall>maybeNew obj. fst (runBeforeSave (handlers T klass) request) = Resolved maybeNew \<longrightarrow>
        workingObject maybeNew request = Inr obj \<longrightarrow>
        get_obj obj MIGRATION_KEY = Some IS_MIGRATED"
  show "Invoke MigrateObject x \<notin> set (snd (getBeforeSave T klass request))"
  proof (cases "\<exists>maybeNew obj. fst (runBeforeSave (handlers T klass) request) = Resolved maybeNew \<and>
        workingObject maybeNew request = Inr obj")
    case True
    then obtain maybeNew obj
      where w: "fst (runBeforeSave (handlers T klass) request) = Resolved maybeNew"
        "workingObject maybeNew request = Inr obj"
      by blast
    with h have "get_obj obj MIGRATION_KEY = Some IS_MIGRATED" by blast
    then show ?thesis
      using getBeforeSave_working [OF w] runBeforeSave_no_migrate
      by (simp add: migrateOnWrite_is_migrated)
  next
    case False
    then have "snd (getBeforeSave T klass request) = snd (runBeforeSave (handlers T klass) request)"
      by (intro getBeforeSave_no_working) blast
    then show ?thesis
      using runBeforeSave_no_migrate by simp
  qed
next
  assume a: "handlers T klass MigrateObject = Some m \<and>
    fst (runBeforeSave (handlers T klass) request) = Resolved maybeNew' \<and>
    workingObject maybeNew' request = Inr obj' \<and> \<not> isNew obj' \<and>
    get_obj obj' MIGRATION_KEY = Some FINISHED_SECOND_PASS"
  then have "snd (migrateOnWrite (Some m) obj') =
      [Invoke MigrateObject (set_obj MIGRATION_KEY IS_MIGRATED obj')]"
    by (simp add: migrateOnWrite_migrates Let_def status_distinct)
  then show "snd (getBeforeSave T klass request) =
        snd (runBeforeSave (handlers T klass) request) @
        [Invoke MigrateObject (set_obj MIGRATION_KEY IS_MIGRATED obj')]"
    using a getBeforeSave_working [of T klass request maybeNew' obj'] by simp
qed

definition widget_T :: triggers where
  "widget_T = [(''Widget'', no_handlers(MigrateObject := Some ok_handler))]"

definition finished_widget :: pobj where
  "finished_widget = \<lparr>className = ''Widget'', objectId = Some ''w1'', existedFlag = True,
     attributes = [(MIGRATION_KEY, FINISHED_SECOND_PASS)], dirty = [''name'']\<rparr>"

definition migrated_widget :: pobj where
  "migrated_widget = \<lparr>className = ''Widget'', objectId = Some ''w1'', existedFlag = True,
     attributes = [(MIGRATION_KEY, IS_MIGRATED)], dirty = [''name'']\<rparr>"

lemma widget_T_simps:
  "handlers widget_T (Name ''Widget'') MigrateObject = Some ok_handler"
  "runBeforeSave (handlers widget_T (Name ''Widget'')) request = (Resolved JUndefined, [])"
  "workingObject JUndefined request = Inr (object request)"
  by (simp_all add: widget_T_def handlers_def no_handlers_def runBeforeSave_def workingObject_def)

theorem migrated_record_not_migrated_again_witness:
  "get_obj migrated_widget MIGRATION_KEY = Some IS_MIGRATED \<and>
   snd (getBeforeSave widget_T (Name ''Widget'') \<lparr>object = migrated_widget\<rparr>) = [] \<and>
   \<not> isNew finished_widget \<and>
   get_obj finished_widget MIGRATION_KEY = Some FINISHED_SECOND_PASS \<and>
   snd (getBeforeSave widget_T (Name ''Widget'') \<lparr>object = finished_widget\<rparr>) =
     [Invoke MigrateObject (set_obj MIGRATION_KEY IS_MIGRATED finished_widget)]"
proof -
  have a: "get_obj migrated_widget MIGRATION_KEY = Some IS_MIGRATED"
    and b: "\<not> isNew finished_widget"
      "get_obj finished_widget MIGRATION_KEY = Some FINISHED_SECOND_PASS"
    by (simp_all add: get_obj_def migrated_widget_def finished_widget_def isNew_def)
  have "\<forall>x. Invoke MigrateObject x \<notin>
      set (snd (getBeforeSave widget_T (Name ''Widget'') \<lparr>object = migrated_widget\<rparr>))"
    using migrated_record_not_migrated_again
      [of widget_T "Name ''Widget''" "\<lparr>object = migrated_widget\<rparr>"] a
    by (simp add: widget_T_simps)
  moreover have "snd (getBeforeSave widget_T (Name ''Widget'') \<lparr>object = migrated_widget\<rparr>) = []"
    using a getBeforeSave_working
      [of widget_T "Name ''Widget''" "\<lparr>object = migrated_widget\<rparr>" JUndefined migrated_widget]
    by (simp add: widget_T_simps migrateOnWrite_is_migrated)
  moreover have "snd (getBeforeSave widget_T (Name ''Widget'') \<lparr>object = finished_widget\<rparr>) =
     [Invoke MigrateObject (set_obj MIGRATION_KEY IS_MIGRATED finished_widget)]"
    using migrated_record_not_migrated_again
      [of widget_T "Name ''Widget''" "\<lparr>object = finished_widget\<rparr>" ok_handler JUndefined
        finished_widget] b
    by (simp add: widget_T_simps)
  ultimately show ?thesis
    using a b by simp
qed

text \<open>
  C2 as stated fails: a persisted record with the status \<open>FINISHED_SECOND_PASS\<close> is
  written, and the pre-write callback calls the migrate handler.
\<close>

theorem finished_second_pass_migrated_again:
  "get_obj finished_widget MIGRATION_KEY = Some FINISHED_SECOND_PASS \<and>
   getBeforeSave widget_T (Name ''Widget'') \<lparr>object = finished_widget\<rparr> =
     (Success (set_obj MIGRATION_KEY IS_MIGRATED finished_widget),
      [Invoke MigrateObject (set_obj MIGRATION_KEY IS_MIGRATED finished_widget)])"
  by (simp add: getBeforeSave_def widget_T_simps migrateOnWrite_def finished_widget_def
      get_obj_def isNew_def def_def ok_handler_def IS_MIGRATED_def FINISHED_SECOND_PASS_def
      NEEDS_SECOND_PASS_def Let_def)


section \<open>The second pass of a new record\<close>

lemma maybeTouch_touches:
  "\<not> existed obj \<Longrightarrow> migrate = Some m \<Longrightarrow>
     fst (snd (maybeTouch migrate obj w)) = [Save (set_obj MIGRATION_KEY NEEDS_SECOND_PASS obj)]"
  by (simp add: maybeTouch_def def_def Let_def split: prod.splits)

text \<open>The record that \<open>maybeTouch\<close> is given for a request.\<close>

definition touched :: "triggers \<Rightarrow> klass \<Rightarrow> request \<Rightarrow> pobj" where
  "touched T klass request =
     (case handlers T klass AfterSave of
        None \<Rightarrow> object request
      | Some afterSave \<Rightarrow> recordAfter (afterSave [ARequest request]) (object request))"

lemma getAfterSave_events:
  assumes "\<forall>f e. handlers T klass AfterSave = Some f \<longrightarrow> ends (f [ARequest request]) \<noteq> Threw e"
  shows "fst (snd (getAfterSave T klass request w)) =
     (case handlers T klass AfterSave of None \<Rightarrow> [] | Some f \<Rightarrow> [Invoke AfterSave (object request)]) @
     fst (snd (maybeTouch (handlers T klass MigrateObject) (touched T klass request) w))"
proof (cases "handlers T klass AfterSave")
  case None
  then show ?thesis
    by (simp add: getAfterSave_def touched_def)
next
  case (Some f)
  then have "ends (f [ARequest request]) \<noteq> Threw e" for e
    using assms by simp
  then show ?thesis
    using Some
    by (cases "ends (f [ARequest request])")
      (auto simp: getAfterSave_def touched_def Let_def case_prod_beta)
qed

lemma getAfterSave_throws:
  assumes "handlers T klass AfterSave = Some f" and "ends (f [ARequest request]) = Threw e"
  shows "getAfterSave T klass request w = (Threw e, [Invoke AfterSave (object request)], w)"
  using assms by (simp add: getAfterSave_def Let_def)

text \<open>
  What holds of a brand-new record's second pass when the user's after-write handler,
  if there is one, returns. \<open>r\<close> is the record that reaches the migration step of the
  first save's pre-write callback, without an objectId: the callback hands it to
  \<open>response.success\<close> as it is and calls no migrate handler. \<open>p\<close> is the record as
  the host gives it to the post-write callback once the first save has persisted, and
  \<open>p'\<close> what the after-write handler leaves of it: it has an objectId,
  \<open>existed()\<close> is false and nothing is pending. The callback sets
  \<open>NEEDS_SECOND_PASS\<close> and saves the record; the pre-write callback of that save sets
  \<open>FINISHED_SECOND_PASS\<close> and calls exactly one handler, the migrate handler, once.
\<close>

lemma second_pass_when_afterSave_returns:
  assumes "handlers T klass MigrateObject = Some m"
    and "fst (runBeforeSave (handlers T klass) request) = Resolved maybeNew"
    and "workingObject maybeNew request = Inr r" and "isNew r"
    and "\<forall>f e. handlers T klass AfterSave = Some f \<longrightarrow> ends (f [ARequest \<lparr>object = p\<rparr>]) \<noteq> Threw e"
    and "p' = touched T klass \<lparr>object = p\<rparr>"
    and "\<not> isNew p'" and "\<not> existed p'" and "dirtyKeys p' = []"
  shows "getBeforeSave T klass request = (Success r, snd (runBeforeSave (handlers T klass) request)) \<and>
    fst (snd (getAfterSave T klass \<lparr>object = p\<rparr> w)) =
      (case handlers T klass AfterSave of None \<Rightarrow> [] | Some f \<Rightarrow> [Invoke AfterSave p]) @
      [Save (set_obj MIGRATION_KEY NEEDS_SECOND_PASS p')] \<and>
    get_obj (set_obj MIGRATION_KEY NEEDS_SECOND_PASS p') MIGRATION_KEY = Some NEEDS_SECOND_PASS \<and>
    snd (getBeforeSave T klass \<lparr>object = set_obj MIGRATION_KEY NEEDS_SECOND_PASS p'\<rparr>) =
      [Invoke MigrateObject
         (set_obj MIGRATION_KEY FINISHED_SECOND_PASS (set_obj MIGRATION_KEY NEEDS_SECOND_PASS p'))] \<and>
    get_obj (set_obj MIGRATION_KEY FINISHED_SECOND_PASS (set_obj MIGRATION_KEY NEEDS_SECOND_PASS p'))
      MIGRATION_KEY = Some FINISHED_SECOND_PASS \<and>
    fst (getBeforeSave T klass \<lparr>object = set_obj MIGRATION_KEY NEEDS_SECOND_PASS p'\<rparr>) =
      (case settle (m [AObject (set_obj MIGRATION_KEY FINISHED_SECOND_PASS
                                  (set_obj MIGRATION_KEY NEEDS_SECOND_PASS p'))]) of
         Resolved _ \<Rightarrow> Success (set_obj MIGRATION_KEY FINISHED_SECOND_PASS
                                  (set_obj MIGRATION_KEY NEEDS_SECOND_PASS p'))
       | Rejected e \<Rightarrow> Error e
       | Threw e \<Rightarrow> Error e)"
proof -
  let ?q = "set_obj MIGRATION_KEY NEEDS_SECOND_PASS p'"
  let ?q' = "set_obj MIGRATION_KEY FINISHED_SECOND_PASS ?q"
  have first: "getBeforeSave T klass request =
      (Success r, snd (runBeforeSave (handlers T klass) request))"
    using getBeforeSave_working [OF assms(2,3)] assms(4) by (simp add: migrateOnWrite_isNew)
  have touch: "fst (snd (getAfterSave T klass \<lparr>object = p\<rparr> w)) =
      (case handlers T klass AfterSave of None \<Rightarrow> [] | Some f \<Rightarrow> [Invoke AfterSave p]) @ [Save ?q]"
    using getAfterSave_events [OF assms(5), of w]
      maybeTouch_touches [OF assms(8) assms(1), of w] assms(6)
    by (simp split: option.splits)
  have "dirtyKeys ?q = [MIGRATION_KEY]"
    using assms(9) by (simp add: dirtyKeys_def set_obj_def)
  then have quiet: "runBeforeSave (handlers T klass) \<lparr>object = ?q\<rparr> = (Resolved JUndefined, [])"
    by (simp add: runBeforeSave_def shouldBeforeSave_def split: option.splits)
  have work: "workingObject JUndefined \<lparr>object = ?q\<rparr> = Inr ?q"
    by (simp add: workingObject_def)
  have "migrateOnWrite (Some m) ?q =
      (case settle (m [AObject ?q']) of
         Resolved _ \<Rightarrow> Resolved ?q' | Rejected e \<Rightarrow> Rejected e | Threw e \<Rightarrow> Rejected e,
       [Invoke MigrateObject ?q'])"
    using assms(7)
    by (simp add: migrateOnWrite_migrates isNew_set_obj get_set_obj Let_def status_distinct)
  then have second: "getBeforeSave T klass \<lparr>object = ?q\<rparr> =
      (case settle (m [AObject ?q']) of
         Resolved _ \<Rightarrow> Success ?q' | Rejected e \<Rightarrow> Error e | Threw e \<Rightarrow> Error e,
       [Invoke MigrateObject ?q'])"
    using getBeforeSave_working [of T klass "\<lparr>object = ?q\<rparr>" JUndefined ?q] quiet work assms(1)
    by (simp split: outcome.splits)
  show ?thesis
    using first touch second by (simp add: get_set_obj)
qed

definition new_widget :: pobj where
  "new_widget = \<lparr>className = ''Widget'', objectId = None, existedFlag = False,
     attributes = [], dirty = [''name'']\<rparr>"

definition created_widget :: pobj where
  "created_widget = \<lparr>className = ''Widget'', objectId = Some ''w1'', existedFlag = False,
     attributes = [], dirty = []\<rparr>"

definition world0 :: world where
  "world0 = \<lparr>clock = (\<lambda>n. if n = 0 then 0 else 1000000), reads = 0, rows = [widget],
     saveError = (\<lambda>_. None)\<rparr>"

text \<open>An after-write handler that throws before it returns, and one that returns a
  promise that rejects.\<close>

definition throwing_handler :: handler where
  "throwing_handler = (\<lambda>_. returns (Threw (Thrown ''after'')))"

definition rejecting_handler :: handler where
  "rejecting_handler = (\<lambda>_. returns (Rejected (Thrown ''after'')))"

definition throwing_T :: triggers where
  "throwing_T = [(''Widget'', no_handlers(MigrateObject := Some ok_handler,
                                         AfterSave := Some throwing_handler))]"

definition rejecting_T :: triggers where
  "rejecting_T = [(''Widget'', no_handlers(MigrateObject := Some ok_handler,
                                          AfterSave := Some rejecting_handler))]"

text \<open>
  C3 fails on the code. \<open>Widget\<close> has a migrate handler and an after-write handler
  that throws before it returns. The first save of a brand-new record passes the
  pre-write callback unchanged and persists; the post-write callback, called with the
  persisted record (it has an objectId, \<open>existed()\<close> is false), calls the after-write
  handler, throws, and neither sets \<open>NEEDS_SECOND_PASS\<close> nor issues a save: the record
  gets no second pass. With an after-write handler that returns a rejecting promise
  the same callback does set the status and save.
\<close>

theorem afterSave_throw_skips_second_pass:
  "handlers throwing_T (Name ''Widget'') MigrateObject = Some ok_handler \<and>
   isNew new_widget \<and>
   getBeforeSave throwing_T (Name ''Widget'') \<lparr>object = new_widget\<rparr> = (Success new_widget, []) \<and>
   \<not> isNew created_widget \<and> \<not> existed created_widget \<and>
   getAfterSave throwing_T (Name ''Widget'') \<lparr>object = created_widget\<rparr> world0 =
     (Threw (Thrown ''after''), [Invoke AfterSave created_widget], world0) \<and>
   fst (snd (getAfterSave rejecting_T (Name ''Widget'') \<lparr>object = created_widget\<rparr> world0)) =
     [Invoke AfterSave created_widget,
      Save (set_obj MIGRATION_KEY NEEDS_SECOND_PASS created_widget)]"
proof -
  have h: "handlers throwing_T (Name ''Widget'') MigrateObject = Some ok_handler"
    "handlers throwing_T (Name ''Widget'') AfterSave = Some throwing_handler"
    "handlers throwing_T (Name ''Widget'') BeforeSave = None"
    "handlers rejecting_T (Name ''Widget'') MigrateObject = Some ok_handler"
    "handlers rejecting_T (Name ''Widget'') AfterSave = Some rejecting_handler"
    by (simp_all add: throwing_T_def rejecting_T_def handlers_def no_handlers_def)
  have n: "isNew new_widget" "\<not> isNew created_widget" "\<not> existed created_widget"
    by (simp_all add: isNew_def existed_def new_widget_def created_widget_def)
  have "runBeforeSave (handlers throwing_T (Name ''Widget'')) \<lparr>object = new_widget\<rparr> =
      (Resolved JUndefined, [])"
    using h(3) by (simp add: runBeforeSave_def)
  then have first: "getBeforeSave throwing_T (Name ''Widget'') \<lparr>object = new_widget\<rparr> =
      (Success new_widget, [])"
    using getBeforeSave_working
      [of throwing_T "Name ''Widget''" "\<lparr>object = new_widget\<rparr>" JUndefined new_widget] n(1)
    by (simp add: workingObject_def migrateOnWrite_isNew)
  have thrown: "getAfterSave throwing_T (Name ''Widget'') \<lparr>object = created_widget\<rparr> world0 =
      (Threw (Thrown ''after''), [Invoke AfterSave created_widget], world0)"
    using getAfterSave_throws [OF h(2), of "\<lparr>object = created_widget\<rparr>" "Thrown ''after''" world0]
    by (simp add: throwing_handler_def returns_def)
  have "touched rejecting_T (Name ''Widget'') \<lparr>object = created_widget\<rparr> = created_widget"
    using h(5) by (simp add: touched_def rejecting_handler_def returns_def recordAfter_def)
  then have rejected:
    "fst (snd (getAfterSave rejecting_T (Name ''Widget'') \<lparr>object = created_widget\<rparr> world0)) =
      [Invoke AfterSave created_widget,
       Save (set_obj MIGRATION_KEY NEEDS_SECOND_PASS created_widget)]"
    using getAfterSave_events [of rejecting_T "Name ''Widget''" "\<lparr>object = created_widget\<rparr>" world0]
      maybeTouch_touches [OF n(3) h(4), of world0] h(5)
    by (simp add: rejecting_handler_def returns_def)
  show ?thesis
    using h(1) n first thrown rejected by simp
qed

section \<open>The object that is not a response object\<close>

lemma getBeforeSave_handler_fails:
  assumes "handlers T klass BeforeSave = Some h"
    and "dirtyKeys (object request) \<noteq> [MIGRATION_KEY]"
    and "ends (h [ARequest request, AResponse ThisIsNotAResponseObject]) = Threw e"
  shows "getBeforeSave T klass request = (Error e, [Invoke BeforeSave (object request)])"
proof -
  have "shouldBeforeSave (handlers T klass) request"
    using assms(1,2)
    by (cases "dirtyKeys (object request)") (auto simp: shouldBeforeSave_def def_def Let_def)
  then have "runBeforeSave (handlers T klass) request =
      (Rejected e, [Invoke BeforeSave (object request)])"
    using assms(1,3) by (simp add: runBeforeSave_def)
  then show ?thesis
    by (simp add: getBeforeSave_def)
qed

lemma getBeforeDelete_handler_fails:
  assumes "handlers T klass BeforeDelete = Some h"
    and "ends (h [ARequest request, AResponse ThisIsNotAResponseObject]) = Threw e"
  shows "getBeforeDelete T klass request = (Error e, [Invoke BeforeDelete (object request)])"
  using assms by (simp add: getBeforeDelete_def)

lemma getBeforeSave_handler_resolves:
  assumes "handlers T klass BeforeSave = Some h"
    and "dirtyKeys (object request) \<noteq> [MIGRATION_KEY]"
    and "ends (h [ARequest request, AResponse ThisIsNotAResponseObject]) = Resolved JUndefined"
    and "handlers T klass MigrateObject = None"
  shows "getBeforeSave T klass request =
     (Success (object request), [Invoke BeforeSave (object request)])"
proof -
  have "shouldBeforeSave (handlers T klass) request"
    using assms(1,2)
    by (cases "dirtyKeys (object request)") (auto simp: shouldBeforeSave_def def_def Let_def)
  then have "runBeforeSave (handlers T klass) request =
      (Resolved JUndefined, [Invoke BeforeSave (object request)])"
    using assms(1,3) by (simp add: runBeforeSave_def)
  then show ?thesis
    using assms(4)
    by (simp add: getBeforeSave_def workingObject_def migrateOnWrite_def def_def)
qed

lemma getBeforeDelete_handler_resolves:
  assumes "handlers T klass BeforeDelete = Some h"
    and "ends (h [ARequest request, AResponse ThisIsNotAResponseObject]) = Resolved JUndefined"
    and "handlers T klass MigrateDelete = None"
  shows "getBeforeDelete T klass request = (Success (), [Invoke BeforeDelete (object request)])"
  using assms by (simp add: getBeforeDelete_def)

text \<open>
  C10, as amended. \<open>success\<close> and \<open>error\<close> of \<open>ThisIsNotAResponseObject\<close> throw
  whatever they are given. The composed pre-write callback, on a write that is not a
  bookkeeping write, and the composed pre-delete callback call the user's handler with
  the request and this object. A handler whose call ends in a call of one of the two
  methods makes the callback report the thrown text through \<open>response.error\<close>, after
  that one handler call and nothing else. A handler that returns nothing and calls the
  methods later, outside of what it returned, does not: whatever it does later, the
  callback goes on as after a handler that resolved, and where no migrate handler is
  registered it answers \<open>response.success\<close>.
\<close>

theorem synchronous_callback_style_takes_error_path:
  "(\<forall>args. \<exists>msg. success ThisIsNotAResponseObject args = Threw (Thrown msg)) \<and>
   (\<forall>args. \<exists>msg. error ThisIsNotAResponseObject args = Threw (Thrown msg)) \<and>
   (handlers T klass BeforeSave = Some h \<and> dirtyKeys (object request) \<noteq> [MIGRATION_KEY] \<and>
    (ends (h [ARequest request, AResponse ThisIsNotAResponseObject])
       = success ThisIsNotAResponseObject args1 \<or>
     ends (h [ARequest request, AResponse ThisIsNotAResponseObject])
       = error ThisIsNotAResponseObject args1) \<longrightarrow>
    (\<exists>msg. getBeforeSave T klass request =
       (Error (Thrown msg), [Invoke BeforeSave (object request)]))) \<and>
   (handlers T klass BeforeDelete = Some h' \<and>
    (ends (h' [ARequest request', AResponse ThisIsNotAResponseObject])
       = success ThisIsNotAResponseObject args2 \<or>
     ends (h' [ARequest request', AResponse ThisIsNotAResponseObject])
       = error ThisIsNotAResponseObject args2) \<longrightarrow>
    (\<exists>msg. getBeforeDelete T klass request' =
       (Error (Thrown msg), [Invoke BeforeDelete (object request')]))) \<and>
   (handlers U klass BeforeSave = Some g \<and> dirtyKeys (object request) \<noteq> [MIGRATION_KEY] \<and>
    ends (g [ARequest request, AResponse ThisIsNotAResponseObject]) = Resolved JUndefined \<and>
    handlers U klass MigrateObject = None \<longrightarrow>
    getBeforeSave U klass request =
      (Success (object request), [Invoke BeforeSave (object request)])) \<and>
   (handlers U klass BeforeDelete = Some g' \<and>
    ends (g' [ARequest request', AResponse ThisIsNotAResponseObject]) = Resolved JUndefined \<and>
    handlers U klass MigrateDelete = None \<longrightarrow>
    getBeforeDelete U klass request' = (Success (), [Invoke BeforeDelete (object request')]))"
proof (intro conjI impI allI)
  fix args
  show "\<exists>msg. success ThisIsNotAResponseObject args = Threw (Thrown msg)"
    by (simp add: ThisIsNotAResponseObject_def)
  show "\<exists>msg. error ThisIsNotAResponseObject args = Threw (Thrown msg)"
    by (simp add: ThisIsNotAResponseObject_def)
next
  assume a: "handlers T klass BeforeSave = Some h \<and>
    dirtyKeys (object request) \<noteq> [MIGRATION_KEY] \<and>
    (ends (h [ARequest request, AResponse ThisIsNotAResponseObject])
       = success ThisIsNotAResponseObject args1 \<or>
     ends (h [ARequest request, AResponse ThisIsNotAResponseObject])
       = error ThisIsNotAResponseObject args1)"
  then obtain msg
    where "ends (h [ARequest request, AResponse ThisIsNotAResponseObject]) = Threw (Thrown msg)"
    by (auto simp: ThisIsNotAResponseObject_def)
  with a show "\<exists>msg. getBeforeSave T klass request =
       (Error (Thrown msg), [Invoke BeforeSave (object request)])"
    using getBeforeSave_handler_fails by blast
next
  assume a: "handlers T klass BeforeDelete = Some h' \<and>
    (ends (h' [ARequest request', AResponse ThisIsNotAResponseObject])
       = success ThisIsNotAResponseObject args2 \<or>
     ends (h' [ARequest request', AResponse ThisIsNotAResponseObject])
       = error ThisIsNotAResponseObject args2)"
  then obtain msg
    where "ends (h' [ARequest request', AResponse ThisIsNotAResponseObject]) = Threw (Thrown msg)"
    by (auto simp: ThisIsNotAResponseObject_def)
  with a show "\<exists>msg. getBeforeDelete T klass request' =
       (Error (Thrown msg), [Invoke BeforeDelete (object request')])"
    using getBeforeDelete_handler_fails by blast
next
  assume "handlers U klass BeforeSave = Some g \<and>
    dirtyKeys (object request) \<noteq> [MIGRATION_KEY] \<and>
    ends (g [ARequest request, AResponse ThisIsNotAResponseObject]) = Resolved JUndefined \<and>
    handlers U klass MigrateObject = None"
  then show "getBeforeSave U klass request =
      (Success (object request), [Invoke BeforeSave (object request)])"
    using getBeforeSave_handler_resolves by blast
next
  assume "handlers U klass BeforeDelete = Some g' \<and>
    ends (g' [ARequest request', AResponse ThisIsNotAResponseObject]) = Resolved JUndefined \<and>
    handlers U klass MigrateDelete = None"
  then show "getBeforeDelete U klass request' =
      (Success (), [Invoke BeforeDelete (object request')])"
    using getBeforeDelete_handler_resolves by blast
qed

text \<open>A handler in the callback style: it does its work and calls \<open>response.success()\<close>
  before it returns.\<close>

definition callback_handler :: handler where
  "callback_handler = (\<lambda>args. case args of
       [_, AResponse response] \<Rightarrow> returns (success response [])
     | _ \<Rightarrow> returns (Resolved JUndefined))"

definition callback_T :: triggers where
  "callback_T = [(''Widget'', no_handlers(BeforeSave := Some callback_handler,
                                         BeforeDelete := Some callback_handler))]"

text \<open>A handler in the callback style that starts its work, returns nothing and calls
  \<open>response.success()\<close> when the work is done.\<close>

definition deferred_handler :: handler where
  "deferred_handler = (\<lambda>args. case args of
       [_, AResponse response] \<Rightarrow>
         \<lparr>ends = Resolved JUndefined, edited = None, later = [success response []]\<rparr>
     | _ \<Rightarrow> returns (Resolved JUndefined))"

definition deferred_T :: triggers where
  "deferred_T = [(''Widget'', no_handlers(BeforeSave := Some deferred_handler,
                                         BeforeDelete := Some deferred_handler))]"

lemma deferred_T_simps:
  "handlers deferred_T (Name ''Widget'') BeforeSave = Some deferred_handler"
  "handlers deferred_T (Name ''Widget'') BeforeDelete = Some deferred_handler"
  "handlers deferred_T (Name ''Widget'') MigrateObject = None"
  "handlers deferred_T (Name ''Widget'') MigrateDelete = None"
  "ends (deferred_handler [ARequest request, AResponse ThisIsNotAResponseObject])
     = Resolved JUndefined"
  "later (deferred_handler [ARequest request, AResponse ThisIsNotAResponseObject])
     = [success ThisIsNotAResponseObject []]"
  by (simp_all add: deferred_T_def handlers_def no_handlers_def deferred_handler_def)

theorem synchronous_callback_style_takes_error_path_witness:
  "handlers callback_T (Name ''Widget'') BeforeSave = Some callback_handler \<and>
   handlers callback_T (Name ''Widget'') BeforeDelete = Some callback_handler \<and>
   dirtyKeys (object \<lparr>object = migrated_widget\<rparr>) \<noteq> [MIGRATION_KEY] \<and>
   ends (callback_handler [ARequest \<lparr>object = migrated_widget\<rparr>,
                           AResponse ThisIsNotAResponseObject])
     = success ThisIsNotAResponseObject [] \<and>
   ends (callback_handler [ARequest \<lparr>object = widget\<rparr>, AResponse ThisIsNotAResponseObject])
     = success ThisIsNotAResponseObject [] \<and>
   (\<exists>msg. getBeforeSave callback_T (Name ''Widget'') \<lparr>object = migrated_widget\<rparr> =
      (Error (Thrown msg), [Invoke BeforeSave migrated_widget])) \<and>
   (\<exists>msg. getBeforeDelete callback_T (Name ''Widget'') \<lparr>object = widget\<rparr> =
      (Error (Thrown msg), [Invoke BeforeDelete widget])) \<and>
   handlers deferred_T (Name ''Widget'') BeforeSave = Some deferred_handler \<and>
   handlers deferred_T (Name ''Widget'') BeforeDelete = Some deferred_handler \<and>
   handlers deferred_T (Name ''Widget'') MigrateObject = None \<and>
   handlers deferred_T (Name ''Widget'') MigrateDelete = None \<and>
   ends (deferred_handler [ARequest \<lparr>object = migrated_widget\<rparr>,
                           AResponse ThisIsNotAResponseObject]) = Resolved JUndefined \<and>
   ends (deferred_handler [ARequest \<lparr>object = widget\<rparr>, AResponse ThisIsNotAResponseObject])
     = Resolved JUndefined \<and>
   getBeforeSave deferred_T (Name ''Widget'') \<lparr>object = migrated_widget\<rparr> =
     (Success migrated_widget, [Invoke BeforeSave migrated_widget]) \<and>
   getBeforeDelete deferred_T (Name ''Widget'') \<lparr>object = widget\<rparr> =
     (Success (), [Invoke BeforeDelete widget])"
proof -
  have a: "handlers callback_T (Name ''Widget'') BeforeSave = Some callback_handler"
    "handlers callback_T (Name ''Widget'') BeforeDelete = Some callback_handler"
    by (simp_all add: callback_T_def handlers_def no_handlers_def)
  have b: "dirtyKeys (object \<lparr>object = migrated_widget\<rparr>) \<noteq> [MIGRATION_KEY]"
    by (simp add: dirtyKeys_def migrated_widget_def MIGRATION_KEY_def)
  have c: "ends (callback_handler [ARequest request, AResponse ThisIsNotAResponseObject])
     = success ThisIsNotAResponseObject []" for request
    by (simp add: callback_handler_def returns_def)
  show ?thesis
    using synchronous_callback_style_takes_error_path
      [of callback_T "Name ''Widget''" callback_handler "\<lparr>object = migrated_widget\<rparr>" "[]"
        callback_handler "\<lparr>object = widget\<rparr>" "[]" deferred_T deferred_handler deferred_handler]
      a b c deferred_T_simps
    by simp
qed

text \<open>
  C10 as stated fails: a before-write and a before-delete handler that attempt the
  callback protocol, calling \<open>response.success()\<close> after they have returned. The call
  throws, outside of the callback's promise chain, and the callback answers
  \<open>response.success\<close>.
\<close>

theorem deferred_callback_style_takes_success_path:
  "later (deferred_handler [ARequest \<lparr>object = migrated_widget\<rparr>,
                            AResponse ThisIsNotAResponseObject])
     = [Threw (Thrown ''The migration tool expects you to return promises, not use callbacks'')] \<and>
   later (deferred_handler [ARequest \<lparr>object = widget\<rparr>, AResponse ThisIsNotAResponseObject])
     = [Threw (Thrown ''The migration tool expects you to return promises, not use callbacks'')] \<and>
   getBeforeSave deferred_T (Name ''Widget'') \<lparr>object = migrated_widget\<rparr> =
     (Success migrated_widget, [Invoke BeforeSave migrated_widget]) \<and>
   getBeforeDelete deferred_T (Name ''Widget'') \<lparr>object = widget\<rparr> =
     (Success (), [Invoke BeforeDelete widget])"
proof -
  have "dirtyKeys (object \<lparr>object = migrated_widget\<rparr>) \<noteq> [MIGRATION_KEY]"
    by (simp add: dirtyKeys_def migrated_widget_def MIGRATION_KEY_def)
  then have "getBeforeSave deferred_T (Name ''Widget'') \<lparr>object = migrated_widget\<rparr> =
     (Success migrated_widget, [Invoke BeforeSave migrated_widget])"
    using getBeforeSave_handler_resolves
      [of deferred_T "Name ''Widget''" deferred_handler "\<lparr>object = migrated_widget\<rparr>"]
    by (simp add: deferred_T_simps)
  moreover have "getBeforeDelete deferred_T (Name ''Widget'') \<lparr>object = widget\<rparr> =
     (Success (), [Invoke BeforeDelete widget])"
    using getBeforeDelete_handler_resolves
      [of deferred_T "Name ''Widget''" deferred_handler "\<lparr>object = widget\<rparr>"]
    by (simp add: deferred_T_simps)
  moreover have "success ThisIsNotAResponseObject [] =
      Threw (Thrown ''The migration tool expects you to return promises, not use callbacks'')"
    by (simp add: ThisIsNotAResponseObject_def)
  ultimately show ?thesis
    by (simp add: deferred_T_simps)
qed

section \<open>Duplicate registrations\<close>

lemma registerAll_append:
  "registerAll (xs @ ys) T =
     (case registerAll xs T of Inl e \<Rightarrow> Inl e | Inr T' \<Rightarrow> registerAll ys T')"
proof (induction xs arbitrary: T)
  case Nil
  then show ?case by simp
next
  case (Cons x xs)
  then show ?case by (cases x) (simp split: sum.splits)
qed

lemma registerFn_keeps:
  assumes "registerFn t k cb T = Inr T'" and "def (handlers T k' t')"
  shows "def (handlers T' k' t')"
proof -
  have "\<not> def (handlers T k t)"
    using assms(1) by (auto simp: registerFn_def handlers_def Let_def split: if_splits)
  then show ?thesis
    using assms handlers_registerFn [OF assms(1), of k']
    by (auto simp: handlers_def)
qed

lemma registerAll_keeps:
  "registerAll xs T = Inr T' \<Longrightarrow> def (handlers T k t) \<Longrightarrow> def (handlers T' k t)"
proof (induction xs arbitrary: T)
  case Nil
  then show ?case by simp
next
  case (Cons x xs)
  obtain t1 k1 cb1 where x: "x = Register t1 k1 cb1" by (cases x)
  with Cons.prems obtain T1 where "registerFn t1 k1 cb1 T = Inr T1" "registerAll xs T1 = Inr T'"
    by (auto split: sum.splits)
  then show ?case
    using Cons.IH Cons.prems(2) registerFn_keeps by blast
qed

lemma registerAll_error:
  "registerAll xs T = Inl e \<Longrightarrow> \<exists>t k. e = AlreadyRegistered t k"
proof (induction xs arbitrary: T)
  case Nil
  then show ?case by simp
next
  case (Cons x xs)
  then show ?case
    by (cases x) (auto simp: registerFn_def Let_def split: sum.splits if_splits)
qed

text \<open>
  C8: registering a handler for a (type, kind) pair that has one already throws the
  duplicate error. A start-up script with two registrations for the same pair
  therefore ends with a duplicate error before it reaches \<open>exportTriggers\<close>, and
  nothing is installed with the host.
\<close>

theorem duplicate_registration_fails_fast:
  "(registerFn t k (Some h) T = Inr T' \<and> classString k' = classString k \<longrightarrow>
      registerFn t k' cb T' = Inl (AlreadyRegistered t k')) \<and>
   (classString k1 = classString k2 \<longrightarrow>
      (\<exists>t' k'. startup (xs @ [Register t k1 (Some h1)] @ ys @ [Register t k2 cb2] @ zs)
         = (Some (AlreadyRegistered t' k'), [])))"
proof (intro conjI impI)
  assume a: "registerFn t k (Some h) T = Inr T' \<and> classString k' = classString k"
  then have "handlers T' k' t = Some h"
    using handlers_registerFn [of t k "Some h" T T' k'] by simp
  then show "registerFn t k' cb T' = Inl (AlreadyRegistered t k')"
    by (simp add: registerFn_defined def_def)
next
  assume same: "classString k1 = classString k2"
  let ?script = "xs @ [Register t k1 (Some h1)] @ ys @ [Register t k2 cb2] @ zs"
  have "\<exists>e. registerAll ?script [] = Inl e"
  proof (cases "registerAll (xs @ [Register t k1 (Some h1)] @ ys) []")
    case (Inl e)
    then show ?thesis
      using registerAll_append [of "xs @ [Register t k1 (Some h1)] @ ys" "[Register t k2 cb2] @ zs" "[]"]
      by simp
  next
    case (Inr T2)
    then obtain T0 T1 where "registerAll xs [] = Inr T0"
      and one: "registerFn t k1 (Some h1) T0 = Inr T1" and rest: "registerAll ys T1 = Inr T2"
      by (auto simp: registerAll_append split: sum.splits)
    from one same have "def (handlers T1 k2 t)"
      by (simp add: handlers_registerFn def_def)
    then have "def (handlers T2 k2 t)"
      using rest registerAll_keeps by blast
    then have "registerFn t k2 cb2 T2 = Inl (AlreadyRegistered t k2)"
      by (rule registerFn_defined)
    then show ?thesis
      using Inr registerAll_append [of "xs @ [Register t k1 (Some h1)] @ ys" "[Register t k2 cb2] @ zs" "[]"]
      by simp
  qed
  then obtain e where e: "registerAll ?script [] = Inl e" ..
  then obtain t' k' where "e = AlreadyRegistered t' k'"
    using registerAll_error by blast
  with e show "\<exists>t' k'. startup ?script = (Some (AlreadyRegistered t' k'), [])"
    by (simp add: startup_def)
qed

theorem duplicate_registration_fails_fast_witness:
  "registerFn BeforeSave (Name ''Widget'') (Some ok_handler) []
     = Inr [(''Widget'', no_handlers(BeforeSave := Some ok_handler))] \<and>
   classString (Name ''Widget'') = classString (Name ''Widget'') \<and>
   registerFn BeforeSave (Name ''Widget'') (Some callback_handler)
       [(''Widget'', no_handlers(BeforeSave := Some ok_handler))]
     = Inl (AlreadyRegistered BeforeSave (Name ''Widget'')) \<and>
   (\<exists>t' k'. startup [Register BeforeSave (Name ''Widget'') (Some ok_handler),
                      Register BeforeSave (Name ''Widget'') (Some callback_handler)]
      = (Some (AlreadyRegistered t' k'), []))"
proof -
  have a: "registerFn BeforeSave (Name ''Widget'') (Some ok_handler) []
     = Inr [(''Widget'', no_handlers(BeforeSave := Some ok_handler))]"
    by (simp add: registerFn_def no_handlers_def def_def)
  show ?thesis
    using duplicate_registration_fails_fast
      [of BeforeSave "Name ''Widget''" ok_handler "[]"
        "[(''Widget'', no_handlers(BeforeSave := Some ok_handler))]" "Name ''Widget''"
        "Some callback_handler" "Name ''Widget''" "Name ''Widget''" "[]" ok_handler "[]"
        "Some callback_handler" "[]"] a
    by simp
qed

section \<open>The import job and its deadline\<close>

lemma widget_unmigrated: "unmigrated ''Widget'' widget"
  by (simp add: unmigrated_def widget_def get_obj_def)

lemma set_obj_keeps:
  "className (set_obj k v obj) = className obj" "objectId (set_obj k v obj) = objectId obj"
  "existedFlag (set_obj k v obj) = existedFlag obj"
  by (simp_all add: set_obj_def)

lemma batch_world0:
  "batch ''Widget'' ok_handler (world0\<lparr>reads := n\<rparr>) =
     (Resolved 1, [Find ''Widget'' 1, Invoke MigrateObject widget,
        Save (set_obj MIGRATION_KEY IS_MIGRATED widget)],
      world0\<lparr>reads := n, rows := [(set_obj MIGRATION_KEY IS_MIGRATED widget)\<lparr>dirty := []\<rparr>]\<rparr>)"
  by (simp add: batch_def find_query_def world0_def widget_unmigrated BATCH_SIZE_def
      migrateRecord_def ok_handler_def save_def sameRow_def whenAll_def Let_def set_obj_keeps)

lemma Date_now_world0:
  "Date_now world0 = (0, world0\<lparr>reads := Suc 0\<rparr>)"
  "Date_now (world0\<lparr>reads := n\<rparr>) =
     (if n = 0 then 0 else 1000000, world0\<lparr>reads := Suc n\<rparr>)"
  by (simp_all add: Date_now_def world0_def)

text \<open>
  C1 fails on the code. The job starts at time 0 and would have to stop sweeping after
  \<open>MAXIMUM_DURATION\<close>; the sweep of \<open>Widget\<close> starts at time 1000000. Called with
  that deadline, \<open>_migrateClass\<close> returns 0 without a query. The job calls it without
  a deadline: it queries, migrates and saves the record and reports one migrated
  record.
\<close>

theorem import_job_ignores_deadline:
  "fst (Date_now world0) + MAXIMUM_DURATION < fst (Date_now (snd (Date_now world0))) \<and>
   migrateClass ''Widget'' ok_handler (DNumber (fst (Date_now world0) + MAXIMUM_DURATION))
       (snd (Date_now world0)) = (Resolved 0, [], world0\<lparr>reads := 2\<rparr>) \<and>
   getImportJob widget_T world0 =
     (StatusSuccess ''Done with an import pass'' 1,
      [Find ''Widget'' 1, Invoke MigrateObject widget,
       Save (set_obj MIGRATION_KEY IS_MIGRATED widget)],
      world0\<lparr>reads := 2, rows := [(set_obj MIGRATION_KEY IS_MIGRATED widget)\<lparr>dirty := []\<rparr>]\<rparr>)"
proof (intro conjI)
  show "fst (Date_now world0) + MAXIMUM_DURATION < fst (Date_now (snd (Date_now world0)))"
    by (simp add: Date_now_world0 MAXIMUM_DURATION_def)
  show "migrateClass ''Widget'' ok_handler (DNumber (fst (Date_now world0) + MAXIMUM_DURATION))
       (snd (Date_now world0)) = (Resolved 0, [], world0\<lparr>reads := 2\<rparr>)"
    by (subst migrateClass.simps) (simp add: Date_now_world0 MAXIMUM_DURATION_def)
  have "migrateClass ''Widget'' ok_handler DUndefined (snd (Date_now world0)) =
      (Resolved 1, [Find ''Widget'' 1, Invoke MigrateObject widget,
         Save (set_obj MIGRATION_KEY IS_MIGRATED widget)],
       world0\<lparr>reads := 2, rows := [(set_obj MIGRATION_KEY IS_MIGRATED widget)\<lparr>dirty := []\<rparr>]\<rparr>)"
    by (subst migrateClass.simps) (simp add: Date_now_world0 batch_world0 BATCH_SIZE_def)
  then show "getImportJob widget_T world0 =
     (StatusSuccess ''Done with an import pass'' 1,
      [Find ''Widget'' 1, Invoke MigrateObject widget,
       Save (set_obj MIGRATION_KEY IS_MIGRATED widget)],
      world0\<lparr>reads := 2, rows := [(set_obj MIGRATION_KEY IS_MIGRATED widget)\<lparr>dirty := []\<rparr>]\<rparr>)"
    by (simp add: getImportJob_def widget_T_def no_handlers_def Date_now_world0)
qed

section \<open>What a batch does to the store\<close>

text \<open>
  A record fails in the sweep when its migrate handler rejects or throws, or when the
  store refuses the save that follows.
\<close>

definition recordFails :: "handler \<Rightarrow> world \<Rightarrow> pobj \<Rightarrow> bool" where
  "recordFails m w obj =
     (rejection (settle (m [AObject obj])) \<noteq> None \<or>
      saveError w (set_obj MIGRATION_KEY IS_MIGRATED obj) \<noteq> None)"

text \<open>The key under which the store holds a record.\<close>

definition rowKey :: "pobj \<Rightarrow> string \<times> string option" where
  "rowKey r = (className r, objectId r)"

text \<open>Projections of a run: the sizes of the batches fetched, the records handed to the
  migrate handler, the records saved.\<close>

fun batchSizes :: "event list \<Rightarrow> nat list" where
  "batchSizes [] = []"
| "batchSizes (Find k n # ev) = n # batchSizes ev"
| "batchSizes (e # ev) = batchSizes ev"

fun migrateCalls :: "event list \<Rightarrow> pobj list" where
  "migrateCalls [] = []"
| "migrateCalls (Invoke MigrateObject obj # ev) = obj # migrateCalls ev"
| "migrateCalls (e # ev) = migrateCalls ev"

fun saveCalls :: "event list \<Rightarrow> pobj list" where
  "saveCalls [] = []"
| "saveCalls (Save obj # ev) = obj # saveCalls ev"
| "saveCalls (e # ev) = saveCalls ev"

lemma batchSizes_append: "batchSizes (xs @ ys) = batchSizes xs @ batchSizes ys"
  by (induction xs rule: batchSizes.induct) simp_all

lemma migrateCalls_append: "migrateCalls (xs @ ys) = migrateCalls xs @ migrateCalls ys"
  by (induction xs rule: migrateCalls.induct) simp_all

lemma saveCalls_append: "saveCalls (xs @ ys) = saveCalls xs @ saveCalls ys"
  by (induction xs rule: saveCalls.induct) simp_all

lemma sameRow_rowKey: "sameRow x y \<longleftrightarrow> rowKey x = rowKey y"
  by (auto simp: sameRow_def rowKey_def)

definition stepped :: "pobj set \<Rightarrow> pobj \<Rightarrow> pobj \<Rightarrow> bool" where
  "stepped S x y =
     (rowKey y = rowKey x \<and>
      (if \<exists>obj \<in> S. rowKey x = rowKey obj then get_obj y MIGRATION_KEY = Some IS_MIGRATED
       else y = x))"

lemma stepped_trans: "stepped S1 x y \<Longrightarrow> stepped S2 y z \<Longrightarrow> stepped (S1 \<union> S2) x z"
  by (auto simp: stepped_def split: if_splits)

lemma stepped_empty: "stepped {} x x"
  by (simp add: stepped_def)

lemma migrateRecord_effect:
  assumes "migrateRecord m obj w = (r, ev, w')"
  shows "migrateCalls ev = [obj]" and "batchSizes ev = []"
    and "(rejection r \<noteq> None) = recordFails m w obj"
    and "\<not> recordFails m w obj \<Longrightarrow> saveCalls ev = [set_obj MIGRATION_KEY IS_MIGRATED obj]"
    and "list_all2 (stepped {x. x = obj \<and> \<not> recordFails m w obj}) (rows w) (rows w')"
proof -
  show "migrateCalls ev = [obj]" "batchSizes ev = []"
    using assms
    by (auto simp: migrateRecord_def Let_def split: outcome.splits prod.splits)
  show "(rejection r \<noteq> None) = recordFails m w obj"
    using assms
    by (auto simp: migrateRecord_def recordFails_def save_def Let_def
        split: outcome.splits prod.splits option.splits)
  show "saveCalls ev = [set_obj MIGRATION_KEY IS_MIGRATED obj]" if "\<not> recordFails m w obj"
    using assms that
    by (auto simp: migrateRecord_def recordFails_def Let_def split: outcome.splits prod.splits)
  show "list_all2 (stepped {x. x = obj \<and> \<not> recordFails m w obj}) (rows w) (rows w')"
  proof (cases "recordFails m w obj")
    case True
    then have "w' = w"
      using assms
      by (auto simp: migrateRecord_def recordFails_def save_def Let_def
          split: outcome.splits prod.splits option.splits)
    then show ?thesis
      using True by (simp add: list_all2_refl stepped_def)
  next
    case False
    then have "rows w' = map (\<lambda>x. if sameRow x (set_obj MIGRATION_KEY IS_MIGRATED obj)
        then (set_obj MIGRATION_KEY IS_MIGRATED obj)\<lparr>dirty := []\<rparr> else x) (rows w)"
      using assms
      by (auto simp: migrateRecord_def recordFails_def save_def Let_def
          split: outcome.splits prod.splits option.splits)
    then show ?thesis
      using False
      by (auto simp: list_all2_conv_all_nth stepped_def sameRow_def rowKey_def set_obj_keeps
          get_obj_def set_obj_def update_conv')
  qed
qed

lemma recordFails_cong: "saveError w' = saveError w \<Longrightarrow> recordFails m w' = recordFails m w"
  by (simp add: recordFails_def fun_eq_iff)

lemma migrations_effect:
  "migrations m objs w = (rs, ev, w') \<Longrightarrow>
     migrateCalls ev = objs \<and> batchSizes ev = [] \<and> length rs = length objs \<and>
     ((\<forall>r \<in> set rs. rejection r = None) = (\<forall>obj \<in> set objs. \<not> recordFails m w obj)) \<and>
     ((\<forall>obj \<in> set objs. \<not> recordFails m w obj) \<longrightarrow>
        saveCalls ev = map (set_obj MIGRATION_KEY IS_MIGRATED) objs) \<and>
     list_all2 (stepped {x \<in> set objs. \<not> recordFails m w x}) (rows w) (rows w')"
proof (induction objs arbitrary: w rs ev w')
  case Nil
  then show ?case by (simp add: list_all2_refl stepped_empty)
next
  case (Cons obj objs)
  obtain r e1 w1 where one: "migrateRecord m obj w = (r, e1, w1)"
    by (metis prod_cases3)
  obtain rs' e2 w2 where rest: "migrations m objs w1 = (rs', e2, w2)"
    by (metis prod_cases3)
  from Cons.prems one rest have eq: "rs = r # rs'" "ev = e1 @ e2" "w' = w2"
    by simp_all
  note h = migrateRecord_effect [OF one]
  note ih = Cons.IH [OF rest]
  have same: "recordFails m w1 = recordFails m w"
    using migrateRecord_rows(2) [OF one] by (rule recordFails_cong)
  have "list_all2 (stepped ({x. x = obj \<and> \<not> recordFails m w obj} \<union>
      {x \<in> set objs. \<not> recordFails m w x})) (rows w) (rows w')"
    using h(5) ih same eq(3) by (auto intro: list_all2_trans [OF stepped_trans])
  moreover have "{x. x = obj \<and> \<not> recordFails m w obj} \<union> {x \<in> set objs. \<not> recordFails m w x}
      = {x \<in> set (obj # objs). \<not> recordFails m w x}"
    by auto
  ultimately have rows: "list_all2 (stepped {x \<in> set (obj # objs). \<not> recordFails m w x})
      (rows w) (rows w')"
    by simp
  show ?case
    using h(1-4) ih same eq rows
    by (auto simp: migrateCalls_append batchSizes_append saveCalls_append)
qed


lemma filter_pointwise:
  "list_all2 (\<lambda>x y. if x \<in> S then \<not> P y else y = x) xs ys \<Longrightarrow>
     filter P ys = filter (\<lambda>x. x \<notin> S) (filter P xs)"
  by (induction rule: list_all2_induct) auto

lemma stepped_rows:
  assumes "list_all2 (stepped S) xs ys" and "distinct (map rowKey xs)" and "S \<subseteq> set xs"
  shows "filter (unmigrated klass) ys = filter (\<lambda>x. x \<notin> S) (filter (unmigrated klass) xs)"
    and "map rowKey ys = map rowKey xs"
proof -
  have inj: "inj_on rowKey (set xs)"
    using assms(2) by (simp add: distinct_map)
  have "list_all2 (\<lambda>x y. if x \<in> S then \<not> unmigrated klass y else y = x) xs ys"
  proof (rule list_all2_all_nthI)
    show "length xs = length ys"
      using assms(1) by (rule list_all2_lengthD)
    fix i assume i: "i < length xs"
    then have st: "stepped S (xs ! i) (ys ! i)"
      using assms(1) by (simp add: list_all2_conv_all_nth)
    have "(\<exists>obj \<in> S. rowKey (xs ! i) = rowKey obj) \<longleftrightarrow> xs ! i \<in> S"
      using inj assms(3) i by (auto dest: inj_onD)
    with st show "if xs ! i \<in> S then \<not> unmigrated klass (ys ! i) else ys ! i = xs ! i"
      by (auto simp: stepped_def unmigrated_def)
  qed
  then show "filter (unmigrated klass) ys = filter (\<lambda>x. x \<notin> S) (filter (unmigrated klass) xs)"
    by (rule filter_pointwise)
  show "map rowKey ys = map rowKey xs"
    using assms(1)
    by (auto simp: list_all2_conv_all_nth stepped_def intro: nth_equalityI)
qed

lemma batch_effect:
  assumes "distinct (map rowKey (rows w))" and "batch klass m w = (r, ev, w')"
  shows "\<exists>evm. ev = Find klass (length (find_query klass w)) # evm \<and>
           migrateCalls evm = find_query klass w \<and> batchSizes evm = [] \<and>
           ((\<forall>obj \<in> set (find_query klass w). \<not> recordFails m w obj) \<longrightarrow>
              saveCalls evm = map (set_obj MIGRATION_KEY IS_MIGRATED) (find_query klass w))"
    and "r = (if \<forall>obj \<in> set (find_query klass w). \<not> recordFails m w obj
              then Resolved (length (find_query klass w)) else r) \<and>
         ((\<exists>obj \<in> set (find_query klass w). recordFails m w obj) \<longrightarrow> (\<exists>e. r = Rejected e))"
    and "filter (unmigrated klass) (rows w') =
           filter (\<lambda>x. x \<notin> {x \<in> set (find_query klass w). \<not> recordFails m w x})
             (filter (unmigrated klass) (rows w))"
    and "map rowKey (rows w') = map rowKey (rows w)"
    and "saveError w' = saveError w"
proof -
  obtain ms evm where run: "migrations m (find_query klass w) w = (ms, evm, w')"
    and r: "r = whenAll ms" and ev: "ev = Find klass (length (find_query klass w)) # evm"
    using assms(2) by (auto simp: batch_def Let_def split: prod.splits)
  note h = migrations_effect [OF run]
  show "\<exists>evm. ev = Find klass (length (find_query klass w)) # evm \<and>
           migrateCalls evm = find_query klass w \<and> batchSizes evm = [] \<and>
           ((\<forall>obj \<in> set (find_query klass w). \<not> recordFails m w obj) \<longrightarrow>
              saveCalls evm = map (set_obj MIGRATION_KEY IS_MIGRATED) (find_query klass w))"
    using h ev by blast
  show "r = (if \<forall>obj \<in> set (find_query klass w). \<not> recordFails m w obj
              then Resolved (length (find_query klass w)) else r) \<and>
         ((\<exists>obj \<in> set (find_query klass w). recordFails m w obj) \<longrightarrow> (\<exists>e. r = Rejected e))"
    using h r by (auto simp: whenAll_def)
  have sub: "{x \<in> set (find_query klass w). \<not> recordFails m w x} \<subseteq> set (rows w)"
    by (auto simp: find_query_def dest: in_set_takeD)
  from h have st: "list_all2 (stepped {x \<in> set (find_query klass w). \<not> recordFails m w x})
      (rows w) (rows w')"
    by simp
  show "filter (unmigrated klass) (rows w') =
           filter (\<lambda>x. x \<notin> {x \<in> set (find_query klass w). \<not> recordFails m w x})
             (filter (unmigrated klass) (rows w))"
    using stepped_rows(1) [OF st assms(1) sub] .
  show "map rowKey (rows w') = map rowKey (rows w)"
    using stepped_rows(2) [OF st assms(1) sub] .
  show "saveError w' = saveError w"
    using migrations_rows [OF run] by simp
qed

lemma in_take_filter:
  "x \<in> set (take n xs) \<Longrightarrow> Q x \<Longrightarrow> x \<in> set (take n (filter Q xs))"
proof (induction xs arbitrary: n)
  case Nil
  then show ?case by simp
next
  case (Cons a xs)
  show ?case
  proof (cases n)
    case 0
    with Cons.prems show ?thesis by simp
  next
    case (Suc k)
    with Cons.prems have "x = a \<or> x \<in> set (take k xs)" by auto
    then show ?thesis
    proof
      assume "x = a"
      with Cons.prems Suc show ?thesis by simp
    next
      assume "x \<in> set (take k xs)"
      then have k: "x \<in> set (take k (filter Q xs))"
        using Cons.IH Cons.prems(2) by blast
      then have "x \<in> set (take (Suc k) (filter Q xs))"
        by (meson in_set_takeD in_set_conv_nth le_SucI set_take_subset_set_take subsetD lessI less_imp_le)
      with k Suc show ?thesis by (cases "Q a") auto
    qed
  qed
qed

lemma drop_filter_distinct:
  "distinct xs \<Longrightarrow> filter (\<lambda>x. x \<notin> set (take n xs)) xs = drop n xs"
proof (induction xs arbitrary: n)
  case Nil
  then show ?case by simp
next
  case (Cons a xs)
  show ?case
  proof (cases n)
    case 0
    then show ?thesis by simp
  next
    case (Suc k)
    have "filter (\<lambda>x. x \<noteq> a \<and> x \<notin> set (take k xs)) xs = filter (\<lambda>x. x \<notin> set (take k xs)) xs"
      using Cons.prems by (intro filter_cong) auto
    with Cons Suc show ?thesis by simp
  qed
qed


section \<open>The sweep of one class\<close>

lemma migrateClass_past:
  "js_gt (fst (Date_now w)) d \<Longrightarrow> migrateClass klass m d w = (Resolved 0, [], snd (Date_now w))"
  by (subst migrateClass.simps) simp

lemma migrateClass_last:
  assumes "\<not> js_gt (fst (Date_now w)) d"
    and "batch klass m (snd (Date_now w)) = (rb, evb, wb)" and "rb \<noteq> Resolved BATCH_SIZE"
  shows "migrateClass klass m d w =
     (case rb of Threw e \<Rightarrow> Rejected e | Rejected e \<Rightarrow> Rejected e | Resolved n \<Rightarrow> Resolved n,
      evb, wb)"
  using assms by (subst migrateClass.simps) (cases rb; simp)

lemma migrateClass_more:
  assumes "\<not> js_gt (fst (Date_now w)) d"
    and "batch klass m (snd (Date_now w)) = (Resolved BATCH_SIZE, evb, wb)"
    and "migrateClass klass m d wb = (r2, ev2, w2)"
  shows "migrateClass klass m d w =
     (case r2 of Resolved accum \<Rightarrow> Resolved (accum + BATCH_SIZE) | Rejected e \<Rightarrow> Rejected e
        | Threw e \<Rightarrow> Rejected e, evb @ ev2, w2)"
  using assms by (subst migrateClass.simps) (simp split: outcome.splits)

lemma Date_now_keeps:
  "rows (snd (Date_now w)) = rows w" "saveError (snd (Date_now w)) = saveError w"
  "clock (snd (Date_now w)) = clock w" "fst (Date_now w) = clock w (reads w)"
  by (simp_all add: Date_now_def)

lemma find_query_Date_now: "find_query klass (snd (Date_now w)) = find_query klass w"
  by (simp add: find_query_def Date_now_keeps)

lemma batch_clock: "batch klass m w = (r, ev, w') \<Longrightarrow> clock w' = clock w"
  by (auto simp: batch_def Let_def split: prod.splits dest: migrations_rows)

lemma sweep_failure:
  "distinct (map rowKey (rows w)) \<Longrightarrow> migrateClass klass m d w = (r, ev, w') \<Longrightarrow>
   obj \<in> set (migrateCalls ev) \<Longrightarrow> recordFails m w obj \<Longrightarrow>
     (\<exists>e. r = Rejected e) \<and> obj \<in> set (find_query klass w') \<and>
     (\<exists>ev1 n ev2. ev = ev1 @ Find klass n # ev2 \<and> obj \<in> set (migrateCalls ev2) \<and>
        batchSizes ev2 = []) \<and>
     map rowKey (rows w') = map rowKey (rows w) \<and> saveError w' = saveError w"
proof (induction klass m d w arbitrary: r ev w' rule: migrateClass.induct)
  case (1 klass m d w)
  let ?w0 = "snd (Date_now w)"
  have go: "\<not> js_gt (fst (Date_now w)) d"
    using "1.prems"(2,3) migrateClass_past [of w d klass m] by auto
  obtain rb evb wb where b: "batch klass m ?w0 = (rb, evb, wb)"
    by (metis prod_cases3)
  have dk0: "distinct (map rowKey (rows ?w0))"
    using "1.prems"(1) by (simp add: Date_now_keeps)
  have f0: "recordFails m ?w0 = recordFails m w"
    by (rule recordFails_cong) (simp add: Date_now_keeps)
  note eff = batch_effect [OF dk0 b, unfolded f0 find_query_Date_now Date_now_keeps]
  from eff(1) obtain evm where evm: "evb = Find klass (length (find_query klass w)) # evm"
    "migrateCalls evm = find_query klass w" "batchSizes evm = []"
    by blast
  show ?case
  proof (cases "rb = Resolved BATCH_SIZE")
    case True
    obtain r2 ev2 w2 where rec: "migrateClass klass m d wb = (r2, ev2, w2)"
      by (metis prod_cases3)
    have whole: "migrateClass klass m d w =
      (case r2 of Resolved accum \<Rightarrow> Resolved (accum + BATCH_SIZE) | Rejected e \<Rightarrow> Rejected e
        | Threw e \<Rightarrow> Rejected e, evb @ ev2, w2)"
      using migrateClass_more [OF go _ rec] b True by simp
    have ok: "\<forall>x \<in> set (find_query klass w). \<not> recordFails m w x"
      using eff(2) True by auto
    then have "obj \<notin> set (migrateCalls evb)"
      using evm "1.prems"(4) by auto
    then have in2: "obj \<in> set (migrateCalls ev2)"
      using "1.prems"(2,3) whole by (auto simp: migrateCalls_append)
    have dkb: "distinct (map rowKey (rows wb))"
      using eff(4) "1.prems"(1) by simp
    have fb: "recordFails m wb obj"
      using "1.prems"(4) recordFails_cong [OF eff(5), of m] by simp
    have ih: "(\<exists>e. r2 = Rejected e) \<and> obj \<in> set (find_query klass w2) \<and>
       (\<exists>ev1 n ev3. ev2 = ev1 @ Find klass n # ev3 \<and> obj \<in> set (migrateCalls ev3) \<and>
          batchSizes ev3 = []) \<and>
       map rowKey (rows w2) = map rowKey (rows wb) \<and> saveError w2 = saveError wb"
      using "1.IH" [OF go b [symmetric] True refl refl dkb rec in2 fb] .
    then obtain ev1 n ev3 where "ev2 = ev1 @ Find klass n # ev3" "obj \<in> set (migrateCalls ev3)"
      "batchSizes ev3 = []"
      by blast
    then have "evb @ ev2 = (evb @ ev1) @ Find klass n # ev3 \<and> obj \<in> set (migrateCalls ev3) \<and>
        batchSizes ev3 = []"
      by simp
    then have "\<exists>ev1 n ev3. evb @ ev2 = ev1 @ Find klass n # ev3 \<and> obj \<in> set (migrateCalls ev3) \<and>
        batchSizes ev3 = []"
      by blast
    then show ?thesis
      using ih "1.prems"(2) whole eff(4,5) by auto
  next
    case False
    have whole: "migrateClass klass m d w =
      (case rb of Threw e \<Rightarrow> Rejected e | Rejected e \<Rightarrow> Rejected e | Resolved n \<Rightarrow> Resolved n,
       evb, wb)"
      using migrateClass_last [OF go b False] .
    then have eq: "r = (case rb of Threw e \<Rightarrow> Rejected e | Rejected e \<Rightarrow> Rejected e
        | Resolved n \<Rightarrow> Resolved n)" "ev = evb" "w' = wb"
      using "1.prems"(2) by simp_all
    have inb: "obj \<in> set (find_query klass w)"
      using "1.prems"(3) eq evm by simp
    then obtain e where e: "rb = Rejected e"
      using eff(2) "1.prems"(4) by blast
    have "obj \<in> set (take BATCH_SIZE (filter (\<lambda>x. x \<notin> {x \<in> set (find_query klass w).
        \<not> recordFails m w x}) (filter (unmigrated klass) (rows w))))"
      using inb "1.prems"(4)
        in_take_filter [of obj BATCH_SIZE "filter (unmigrated klass) (rows w)"
          "\<lambda>x. x \<notin> {x \<in> set (find_query klass w). \<not> recordFails m w x}"]
      by (simp add: find_query_def)
    then have "obj \<in> set (find_query klass wb)"
      using eff(3) by (simp add: find_query_def)
    moreover have "ev = [] @ Find klass (length (find_query klass w)) # evm \<and>
        obj \<in> set (migrateCalls evm) \<and> batchSizes evm = []"
      using eq evm inb by simp
    then have "\<exists>ev1 n ev2. ev = ev1 @ Find klass n # ev2 \<and> obj \<in> set (migrateCalls ev2) \<and>
        batchSizes ev2 = []"
      by blast
    moreover have "r = Rejected e"
      using e eq by simp
    ultimately show ?thesis
      using eq eff(4,5) by simp
  qed
qed

lemma sweep_calls_class:
  "migrateClass klass m d w = (r, ev, w') \<Longrightarrow> obj \<in> set (migrateCalls ev) \<Longrightarrow>
     className obj = klass"
proof (induction klass m d w arbitrary: r ev w' rule: migrateClass.induct)
  case (1 klass m d w)
  let ?w0 = "snd (Date_now w)"
  have go: "\<not> js_gt (fst (Date_now w)) d"
    using "1.prems" migrateClass_past [of w d klass m] by auto
  obtain rb evb wb where b: "batch klass m ?w0 = (rb, evb, wb)"
    by (metis prod_cases3)
  then obtain ms evm where "migrations m (find_query klass ?w0) ?w0 = (ms, evm, wb)"
    and "evb = Find klass (length (find_query klass ?w0)) # evm"
    by (auto simp: batch_def Let_def split: prod.splits)
  then have calls: "set (migrateCalls evb) = set (find_query klass ?w0)"
    using migrations_effect by fastforce
  have inb: "x \<in> set (migrateCalls evb) \<Longrightarrow> className x = klass" for x
    using calls by (auto simp: find_query_def unmigrated_def dest: in_set_takeD)
  show ?case
  proof (cases "rb = Resolved BATCH_SIZE")
    case True
    obtain r2 ev2 w2 where rec: "migrateClass klass m d wb = (r2, ev2, w2)"
      by (metis prod_cases3)
    have "ev = evb @ ev2"
      using migrateClass_more [OF go _ rec] b True "1.prems"(1) by simp
    then show ?thesis
      using "1.IH" [OF go b [symmetric] True refl refl rec] inb "1.prems"(2)
      by (auto simp: migrateCalls_append)
  next
    case False
    then show ?thesis
      using migrateClass_last [OF go b False] inb "1.prems" by simp
  qed
qed


lemma sweep_keeps:
  "distinct (map rowKey (rows w)) \<Longrightarrow> migrateClass klass m d w = (r, ev, w') \<Longrightarrow>
     map rowKey (rows w') = map rowKey (rows w) \<and> saveError w' = saveError w"
proof (induction klass m d w arbitrary: r ev w' rule: migrateClass.induct)
  case (1 klass m d w)
  let ?w0 = "snd (Date_now w)"
  show ?case
  proof (cases "js_gt (fst (Date_now w)) d")
    case True
    then show ?thesis
      using "1.prems"(2) by (auto simp: migrateClass_past Date_now_keeps)
  next
    case False
    obtain rb evb wb where b: "batch klass m ?w0 = (rb, evb, wb)"
      by (metis prod_cases3)
    have dk0: "distinct (map rowKey (rows ?w0))"
      using "1.prems"(1) by (simp add: Date_now_keeps)
    note eff = batch_effect(4,5) [OF dk0 b, unfolded Date_now_keeps]
    show ?thesis
    proof (cases "rb = Resolved BATCH_SIZE")
      case True
      obtain r2 ev2 w2 where rec: "migrateClass klass m d wb = (r2, ev2, w2)"
        by (metis prod_cases3)
      have dkb: "distinct (map rowKey (rows wb))"
        using eff "1.prems"(1) by simp
      have "w' = w2"
        using migrateClass_more [OF False _ rec] b True "1.prems"(2) by simp
      then show ?thesis
        using "1.IH" [OF False b [symmetric] True refl refl dkb rec] eff by simp
    next
      case no: False
      then show ?thesis
        using migrateClass_last [OF False b no] eff "1.prems"(2) by simp
    qed
  qed
qed

section \<open>Failures in the import job\<close>

lemma importClasses_skips:
  "\<forall>k. lastMigration \<noteq> Resolved k \<Longrightarrow>
     importClasses T lastMigration tot w = (lastMigration, tot, [], w)"
proof (induction T)
  case Nil
  then show ?case by simp
next
  case (Cons a T)
  then show ?case
    by (cases a; cases lastMigration) (simp_all split: option.splits)
qed

lemma migrateClass_not_Threw: "fst (migrateClass klass m d w) \<noteq> Threw e"
proof (induction klass m d w rule: migrateClass.induct)
  case (1 klass m d w)
  show ?case
  proof (cases "js_gt (fst (Date_now w)) d")
    case True
    then show ?thesis by (simp add: migrateClass_past)
  next
    case False
    obtain rb evb wb where b: "batch klass m (snd (Date_now w)) = (rb, evb, wb)"
      by (metis prod_cases3)
    show ?thesis
    proof (cases "rb = Resolved BATCH_SIZE")
      case True
      obtain r2 ev2 w2 where rec: "migrateClass klass m d wb = (r2, ev2, w2)"
        by (metis prod_cases3)
      show ?thesis
        using migrateClass_more [OF False _ rec] b True by (simp split: outcome.splits)
    next
      case no: False
      show ?thesis
        using migrateClass_last [OF False b no] by (cases rb) simp_all
    qed
  qed
qed

lemma import_failure:
  "distinct (map rowKey (rows w)) \<Longrightarrow>
   importClasses T (Resolved k) tot w = (r, tot', ev, w') \<Longrightarrow>
   obj \<in> set (migrateCalls ev) \<Longrightarrow>
   \<forall>hs m. (className obj, hs) \<in> set T \<and> hs MigrateObject = Some m \<longrightarrow> recordFails m w obj \<Longrightarrow>
     (\<exists>e. r = Rejected e) \<and> obj \<in> set (find_query (className obj) w') \<and>
     (\<exists>ev1 n ev2. ev = ev1 @ Find (className obj) n # ev2 \<and> obj \<in> set (migrateCalls ev2) \<and>
        batchSizes ev2 = [])"
proof (induction T arbitrary: k tot w r tot' ev w')
  case Nil
  then show ?case by simp
next
  case (Cons a T)
  obtain klass hs where a: "a = (klass, hs)" by (cases a)
  show ?case
  proof (cases "hs MigrateObject")
    case None
    then have run: "importClasses T (Resolved k) tot w = (r, tot', ev, w')"
      using Cons.prems(2) a by simp
    have f: "\<forall>hs m. (className obj, hs) \<in> set T \<and> hs MigrateObject = Some m \<longrightarrow>
        recordFails m w obj"
      using Cons.prems(4) by auto
    show ?thesis
      using Cons.IH [OF Cons.prems(1) run Cons.prems(3) f] .
  next
    case (Some m)
    obtain r1 ev1 w1 where sweep: "migrateClass klass m DUndefined w = (r1, ev1, w1)"
      by (metis prod_cases3)
    obtain r2 t2 ev2 w2 where rest: "importClasses T r1 (tot + k) w1 = (r2, t2, ev2, w2)"
      by (metis prod_cases4)
    from Cons.prems(2) a Some sweep rest
    have eq: "r = r2" "ev = ev1 @ ev2" "w' = w2"
      by simp_all
    show ?thesis
    proof (cases "obj \<in> set (migrateCalls ev1)")
      case True
      then have "className obj = klass"
        using sweep sweep_calls_class by blast
      then have "recordFails m w obj"
        using Cons.prems(4) a Some by auto
      note f = sweep_failure [OF Cons.prems(1) sweep True this]
      then obtain e where e: "r1 = Rejected e" by blast
      then have "importClasses T r1 (tot + k) w1 = (r1, tot + k, [], w1)"
        by (intro importClasses_skips) simp
      with rest have "r2 = r1" "ev2 = []" "w2 = w1" by simp_all
      with f e eq \<open>className obj = klass\<close> show ?thesis by simp
    next
      case False
      then have in2: "obj \<in> set (migrateCalls ev2)"
        using Cons.prems(3) eq by (simp add: migrateCalls_append)
      have "\<exists>k1. r1 = Resolved k1"
      proof (rule ccontr)
        assume "\<not> (\<exists>k1. r1 = Resolved k1)"
        then have "importClasses T r1 (tot + k) w1 = (r1, tot + k, [], w1)"
          by (intro importClasses_skips) simp
        with rest in2 show False by simp
      qed
      then obtain k1 where k1: "r1 = Resolved k1" ..
      have keep: "map rowKey (rows w1) = map rowKey (rows w)" "saveError w1 = saveError w"
        using sweep_keeps [OF Cons.prems(1) sweep] by simp_all
      have dk1: "distinct (map rowKey (rows w1))"
        using keep Cons.prems(1) by simp
      have f1: "\<forall>hs m. (className obj, hs) \<in> set T \<and> hs MigrateObject = Some m \<longrightarrow>
          recordFails m w1 obj"
        using Cons.prems(4) recordFails_cong [OF keep(2)] by auto
      have rest': "importClasses T (Resolved k1) (tot + k) w1 = (r2, t2, ev2, w2)"
        using rest k1 by simp
      have "(\<exists>e. r2 = Rejected e) \<and> obj \<in> set (find_query (className obj) w2) \<and>
        (\<exists>ev1 n ev3. ev2 = ev1 @ Find (className obj) n # ev3 \<and> obj \<in> set (migrateCalls ev3) \<and>
           batchSizes ev3 = [])"
        using Cons.IH [OF dk1 rest' in2 f1] .
      moreover have "\<exists>ev0 n ev3. ev1 @ ev2 = ev0 @ Find (className obj) n # ev3 \<and>
          obj \<in> set (migrateCalls ev3) \<and> batchSizes ev3 = []"
        if "ev2 = ev0 @ Find (className obj) n # ev3" "obj \<in> set (migrateCalls ev3)"
          "batchSizes ev3 = []" for ev0 n ev3
      proof -
        have "ev1 @ ev2 = (ev1 @ ev0) @ Find (className obj) n # ev3"
          using that(1) by simp
        then show ?thesis
          using that(2,3) by blast
      qed
      ultimately show ?thesis
        using eq by auto
    qed
  qed
qed


lemma batch_rejects:
  assumes "obj \<in> set (find_query klass w)" and "recordFails m w obj"
  shows "\<exists>e. fst (batch klass m w) = Rejected e"
proof -
  obtain ms evm w' where run: "migrations m (find_query klass w) w = (ms, evm, w')"
    by (metis prod_cases3)
  then have "\<not> (\<forall>r \<in> set ms. rejection r = None)"
    using migrations_effect [OF run] assms by blast
  then show ?thesis
    using run by (simp add: batch_def whenAll_def)
qed

text \<open>
  C6: a record of a sweep batch whose migrate handler or save fails. The batch
  rejects. In a job run on a store with distinct row keys, when a record handed to a
  migrate handler fails under the migrate handler of its class, the job ends with
  \<open>status.error\<close>; the failing record's batch is the last thing the job does (no
  query follows the query that fetched it); the record is in the store as it was,
  unmigrated, and the query of the next sweep of its class selects it.
\<close>

theorem record_failure_aborts_sweep:
  assumes "distinct (map rowKey (rows w))"
    and "getImportJob T w = (s, ev, w')"
    and "obj \<in> set (migrateCalls ev)"
    and "\<forall>hs m. (className obj, hs) \<in> set T \<and> hs MigrateObject = Some m \<longrightarrow> recordFails m w obj"
  shows "(obj' \<in> set (find_query klass wb) \<and> recordFails m' wb obj' \<longrightarrow>
           (\<exists>e. fst (batch klass m' wb) = Rejected e)) \<and>
         (\<exists>e. s = StatusError e) \<and>
         (\<exists>ev1 n ev2. ev = ev1 @ Find (className obj) n # ev2 \<and> obj \<in> set (migrateCalls ev2) \<and>
            batchSizes ev2 = []) \<and>
         obj \<in> set (rows w') \<and> unmigrated (className obj) obj \<and>
         obj \<in> set (find_query (className obj) w')"
proof -
  let ?w0 = "snd (Date_now w)"
  obtain r tot evs w1 where run: "importClasses T (Resolved 0) 0 ?w0 = (r, tot, evs, w1)"
    by (metis prod_cases4)
  then have eq: "ev = evs" "w' = w1"
    and s: "s = (case r of Resolved migrated \<Rightarrow>
        StatusSuccess (if tot + migrated = 0 then ''Completed initial import!''
                       else ''Done with an import pass'') (tot + migrated)
      | Rejected e \<Rightarrow> StatusError e | Threw e \<Rightarrow> StatusError e)"
    using assms(2)
    by (auto simp: getImportJob_def Let_def split: prod.splits outcome.splits)
  have dk0: "distinct (map rowKey (rows ?w0))"
    using assms(1) by (simp add: Date_now_keeps)
  have f0: "\<forall>hs m. (className obj, hs) \<in> set T \<and> hs MigrateObject = Some m \<longrightarrow>
      recordFails m ?w0 obj"
    using assms(4) recordFails_cong [of ?w0 w] by (auto simp: Date_now_keeps)
  have in0: "obj \<in> set (migrateCalls evs)"
    using assms(3) eq by simp
  note f = import_failure [OF dk0 run in0 f0]
  then obtain e where "r = Rejected e" by blast
  then have "s = StatusError e"
    using s by simp
  moreover have "obj \<in> set (filter (unmigrated (className obj)) (rows w'))"
    using f eq by (auto simp: find_query_def dest: in_set_takeD)
  ultimately show ?thesis
    using f eq batch_rejects [of obj' klass wb m'] by auto
qed

definition widget2 :: pobj where
  "widget2 = \<lparr>className = ''Widget'', objectId = Some ''w2'', existedFlag = True,
              attributes = [], dirty = []\<rparr>"

text \<open>A migrate handler that rejects for the record \<open>w2\<close>.\<close>

definition picky_handler :: handler where
  "picky_handler = (\<lambda>args. case args of
       [AObject obj] \<Rightarrow> if objectId obj = Some ''w2'' then returns (Rejected (Thrown ''no''))
                        else returns (Resolved JUndefined)
     | _ \<Rightarrow> returns (Resolved JUndefined))"

definition picky_T :: triggers where
  "picky_T = [(''Widget'', no_handlers(MigrateObject := Some picky_handler))]"

definition world2 :: world where
  "world2 = \<lparr>clock = (\<lambda>n. int n), reads = 0, rows = [widget, widget2],
     saveError = (\<lambda>_. None)\<rparr>"

lemma widget2_unmigrated: "unmigrated ''Widget'' widget2"
  by (simp add: unmigrated_def widget2_def get_obj_def)

lemma batch_world2:
  "batch ''Widget'' picky_handler (world2\<lparr>reads := n\<rparr>) =
     (Rejected (BatchErrors [None, Some (Thrown ''no'')]),
      [Find ''Widget'' 2, Invoke MigrateObject widget,
       Save (set_obj MIGRATION_KEY IS_MIGRATED widget), Invoke MigrateObject widget2],
      world2\<lparr>reads := n,
        rows := [(set_obj MIGRATION_KEY IS_MIGRATED widget)\<lparr>dirty := []\<rparr>, widget2]\<rparr>)"
proof -
  have a: "picky_handler [AObject widget] = returns (Resolved JUndefined)"
    "picky_handler [AObject widget2] = returns (Rejected (Thrown ''no''))"
    by (simp_all add: picky_handler_def widget_def widget2_def)
  have b: "\<not> sameRow widget2 (set_obj MIGRATION_KEY IS_MIGRATED widget)"
    "sameRow widget (set_obj MIGRATION_KEY IS_MIGRATED widget)"
    by (simp_all add: sameRow_def set_obj_keeps widget_def widget2_def)
  show ?thesis
    by (simp add: batch_def find_query_def world2_def widget_unmigrated widget2_unmigrated
        BATCH_SIZE_def migrateRecord_def a b save_def whenAll_def Let_def)
qed

lemma job_world2:
  "getImportJob picky_T world2 =
     (StatusError (BatchErrors [None, Some (Thrown ''no'')]),
      [Find ''Widget'' 2, Invoke MigrateObject widget,
       Save (set_obj MIGRATION_KEY IS_MIGRATED widget), Invoke MigrateObject widget2],
      world2\<lparr>reads := 2,
        rows := [(set_obj MIGRATION_KEY IS_MIGRATED widget)\<lparr>dirty := []\<rparr>, widget2]\<rparr>)"
proof -
  have d: "Date_now (world2\<lparr>reads := n\<rparr>) = (int n, world2\<lparr>reads := Suc n\<rparr>)" for n
    by (simp add: Date_now_def world2_def)
  have d0: "Date_now world2 = (0, world2\<lparr>reads := Suc 0\<rparr>)"
    by (simp add: Date_now_def world2_def)
  have "migrateClass ''Widget'' picky_handler DUndefined (world2\<lparr>reads := Suc 0\<rparr>) =
      (Rejected (BatchErrors [None, Some (Thrown ''no'')]),
       [Find ''Widget'' 2, Invoke MigrateObject widget,
        Save (set_obj MIGRATION_KEY IS_MIGRATED widget), Invoke MigrateObject widget2],
       world2\<lparr>reads := 2,
         rows := [(set_obj MIGRATION_KEY IS_MIGRATED widget)\<lparr>dirty := []\<rparr>, widget2]\<rparr>)"
    by (subst migrateClass.simps) (simp add: d batch_world2)
  then show ?thesis
    by (simp add: getImportJob_def picky_T_def no_handlers_def d0)
qed

theorem record_failure_aborts_sweep_witness:
  "distinct (map rowKey (rows world2)) \<and>
   getImportJob picky_T world2 =
     (StatusError (BatchErrors [None, Some (Thrown ''no'')]),
      [Find ''Widget'' 2, Invoke MigrateObject widget,
       Save (set_obj MIGRATION_KEY IS_MIGRATED widget), Invoke MigrateObject widget2],
      world2\<lparr>reads := 2,
        rows := [(set_obj MIGRATION_KEY IS_MIGRATED widget)\<lparr>dirty := []\<rparr>, widget2]\<rparr>) \<and>
   recordFails picky_handler world2 widget2 \<and>
   widget2 \<in> set (find_query ''Widget'' world2) \<and>
   (\<exists>e. fst (batch ''Widget'' picky_handler world2) = Rejected e) \<and>
   unmigrated ''Widget'' widget2 \<and>
   widget2 \<in> set (find_query ''Widget'' (world2\<lparr>reads := 2,
        rows := [(set_obj MIGRATION_KEY IS_MIGRATED widget)\<lparr>dirty := []\<rparr>, widget2]\<rparr>))"
proof -
  have a: "distinct (map rowKey (rows world2))"
    by (simp add: world2_def rowKey_def widget_def widget2_def)
  have b: "recordFails picky_handler world2 widget2"
    by (simp add: recordFails_def picky_handler_def widget2_def)
  have c: "\<forall>hs m. (className widget2, hs) \<in> set picky_T \<and> hs MigrateObject = Some m \<longrightarrow>
      recordFails m world2 widget2"
    using b by (auto simp: picky_T_def no_handlers_def)
  have d: "widget2 \<in> set (find_query ''Widget'' world2)"
    by (simp add: find_query_def world2_def widget_unmigrated widget2_unmigrated BATCH_SIZE_def)
  have e: "className widget2 = ''Widget''"
    by (simp add: widget2_def)
  show ?thesis
    using record_failure_aborts_sweep [OF a job_world2 _ c, of widget2 "''Widget''" world2
        picky_handler] a b d e job_world2
    by simp
qed

section \<open>A sweep in which nothing fails\<close>

lemma sweep_all_ok:
  "\<forall>obj. \<not> recordFails m w obj \<Longrightarrow> distinct (map rowKey (rows w)) \<Longrightarrow>
   \<forall>n. \<not> js_gt (clock w n) d \<Longrightarrow>
     \<exists>ev w'. migrateClass klass m d w = (Resolved (remaining klass w), ev, w') \<and>
       batchSizes ev = replicate (remaining klass w div BATCH_SIZE) BATCH_SIZE @
                       [remaining klass w mod BATCH_SIZE] \<and>
       length (migrateCalls ev) = remaining klass w \<and>
       length (saveCalls ev) = remaining klass w \<and>
       remaining klass w' = 0 \<and> distinct (map rowKey (rows w')) \<and>
       saveError w' = saveError w \<and> clock w' = clock w"
proof (induction klass m d w rule: migrateClass.induct)
  case (1 klass m d w)
  let ?w0 = "snd (Date_now w)"
  let ?us = "filter (unmigrated klass) (rows w)"
  let ?n = "remaining klass w"
  have n: "?n = length ?us"
    by (simp add: remaining_def)
  have go: "\<not> js_gt (fst (Date_now w)) d"
    using "1.prems"(3) by (simp add: Date_now_keeps)
  obtain rb evb wb where b: "batch klass m ?w0 = (rb, evb, wb)"
    by (metis prod_cases3)
  have dk0: "distinct (map rowKey (rows ?w0))"
    using "1.prems"(2) by (simp add: Date_now_keeps)
  have f0: "recordFails m ?w0 = recordFails m w"
    by (rule recordFails_cong) (simp add: Date_now_keeps)
  note eff = batch_effect [OF dk0 b, unfolded f0 find_query_Date_now Date_now_keeps]
  have fq: "find_query klass w = take BATCH_SIZE ?us"
    by (simp add: find_query_def)
  have len: "length (find_query klass w) = min ?n BATCH_SIZE"
    by (simp add: fq n)
  from eff(1) "1.prems"(1) obtain evm where evm: "evb = Find klass (min ?n BATCH_SIZE) # evm"
    "migrateCalls evm = find_query klass w" "batchSizes evm = []"
    "saveCalls evm = map (set_obj MIGRATION_KEY IS_MIGRATED) (find_query klass w)"
    using len by auto
  have rb: "rb = Resolved (min ?n BATCH_SIZE)"
    using eff(2) "1.prems"(1) len by simp
  have "distinct (rows w)"
    using "1.prems"(2) by (simp add: distinct_map)
  then have "distinct ?us" by simp
  then have "filter (\<lambda>x. x \<notin> set (take BATCH_SIZE ?us)) ?us = drop BATCH_SIZE ?us"
    by (rule drop_filter_distinct)
  then have left: "filter (unmigrated klass) (rows wb) = drop BATCH_SIZE ?us"
    using eff(3) "1.prems"(1) fq by simp
  then have nb: "remaining klass wb = ?n - BATCH_SIZE"
    by (simp add: remaining_def)
  have dkb: "distinct (map rowKey (rows wb))"
    using eff(4) "1.prems"(2) by simp
  have clk: "clock wb = clock w"
    using batch_clock [OF b] by (simp add: Date_now_keeps)
  have fb: "\<forall>obj. \<not> recordFails m wb obj"
    using "1.prems"(1) recordFails_cong [OF eff(5), of m] by simp
  have counts: "length (migrateCalls evb) = min ?n BATCH_SIZE"
    "length (saveCalls evb) = min ?n BATCH_SIZE" "batchSizes evb = [min ?n BATCH_SIZE]"
    using evm len by simp_all
  show ?case
  proof (cases "BATCH_SIZE \<le> ?n")
    case True
    then have full: "rb = Resolved BATCH_SIZE"
      using rb by (simp add: min_def)
    have "\<forall>n. \<not> js_gt (clock wb n) d"
      using "1.prems"(3) clk by simp
    from "1.IH" [OF go b [symmetric] full refl refl fb dkb this]
    obtain ev2 w2 where rec: "migrateClass klass m d wb = (Resolved (?n - BATCH_SIZE), ev2, w2)"
      and sizes: "batchSizes ev2 = replicate ((?n - BATCH_SIZE) div BATCH_SIZE) BATCH_SIZE @
                       [(?n - BATCH_SIZE) mod BATCH_SIZE]"
      and calls: "length (migrateCalls ev2) = ?n - BATCH_SIZE"
        "length (saveCalls ev2) = ?n - BATCH_SIZE"
      and fin: "remaining klass w2 = 0" "distinct (map rowKey (rows w2))"
        "saveError w2 = saveError wb" "clock w2 = clock wb"
      using nb by auto
    have whole: "migrateClass klass m d w = (Resolved (?n - BATCH_SIZE + BATCH_SIZE), evb @ ev2, w2)"
      using migrateClass_more [OF go _ rec] b full by simp
    have pos: "0 < BATCH_SIZE"
      by (simp add: BATCH_SIZE_def)
    have "?n div BATCH_SIZE = Suc ((?n - BATCH_SIZE) div BATCH_SIZE)"
      using True pos by (simp add: le_div_geq)
    moreover have "?n mod BATCH_SIZE = (?n - BATCH_SIZE) mod BATCH_SIZE"
      using True by (simp add: le_mod_geq)
    ultimately have "batchSizes (evb @ ev2) =
        replicate (?n div BATCH_SIZE) BATCH_SIZE @ [?n mod BATCH_SIZE]"
      using sizes counts(3) True by (simp add: batchSizes_append min_def)
    moreover have "length (migrateCalls (evb @ ev2)) = ?n" "length (saveCalls (evb @ ev2)) = ?n"
      using calls counts True by (simp_all add: migrateCalls_append saveCalls_append min_def)
    ultimately show ?thesis
      using whole True fin eff(5) clk by simp
  next
    case False
    then have small: "min ?n BATCH_SIZE = ?n" "rb \<noteq> Resolved BATCH_SIZE"
      using rb by simp_all
    have whole: "migrateClass klass m d w = (Resolved ?n, evb, wb)"
      using migrateClass_last [OF go b small(2)] rb small(1) by simp
    have "?n div BATCH_SIZE = 0" "?n mod BATCH_SIZE = ?n"
      using False by simp_all
    then have "batchSizes evb = replicate (?n div BATCH_SIZE) BATCH_SIZE @ [?n mod BATCH_SIZE]"
      using counts(3) small(1) by simp
    moreover have "remaining klass wb = 0"
      using nb False by simp
    ultimately show ?thesis
      using whole counts small(1) dkb eff(5) clk by simp
  qed
qed

lemma job_all_ok:
  assumes "hs MigrateObject = Some m" and "\<forall>obj. \<not> recordFails m w obj"
    and "distinct (map rowKey (rows w))"
  shows "\<exists>ev w'. getImportJob [(klass, hs)] w =
       (StatusSuccess (if remaining klass w = 0 then ''Completed initial import!''
                       else ''Done with an import pass'') (remaining klass w), ev, w') \<and>
       batchSizes ev = replicate (remaining klass w div BATCH_SIZE) BATCH_SIZE @
                       [remaining klass w mod BATCH_SIZE] \<and>
       length (migrateCalls ev) = remaining klass w \<and>
       length (saveCalls ev) = remaining klass w \<and>
       remaining klass w' = 0 \<and> distinct (map rowKey (rows w')) \<and>
       saveError w' = saveError w"
proof -
  let ?w0 = "snd (Date_now w)"
  have a: "\<forall>obj. \<not> recordFails m ?w0 obj"
    using assms(2) recordFails_cong [of ?w0 w m] by (simp add: Date_now_keeps)
  have b: "distinct (map rowKey (rows ?w0))"
    using assms(3) by (simp add: Date_now_keeps)
  have c: "\<forall>n. \<not> js_gt (clock ?w0 n) DUndefined"
    by simp
  have r: "remaining klass ?w0 = remaining klass w"
    by (rule remaining_Date_now)
  from sweep_all_ok [of m ?w0 DUndefined klass] a b c obtain ev w'
    where run: "migrateClass klass m DUndefined ?w0 = (Resolved (remaining klass w), ev, w')"
      and rest: "batchSizes ev = replicate (remaining klass w div BATCH_SIZE) BATCH_SIZE @
                       [remaining klass w mod BATCH_SIZE]"
        "length (migrateCalls ev) = remaining klass w"
        "length (saveCalls ev) = remaining klass w"
        "remaining klass w' = 0" "distinct (map rowKey (rows w'))"
        "saveError w' = saveError ?w0"
    unfolding r by blast
  have "getImportJob [(klass, hs)] w =
       (StatusSuccess (if remaining klass w = 0 then ''Completed initial import!''
                       else ''Done with an import pass'') (remaining klass w), ev, w')"
    using run assms(1) by (simp add: getImportJob_def case_prod_beta Let_def)
  then show ?thesis
    using rest by (simp add: Date_now_keeps)
qed

text \<open>
  C5: a store with 2500 unmigrated records of one registered class, distinct row keys,
  a migrate handler and a store that never fail. One run of the job fetches three
  batches, of 1000, 1000 and 500 records, calls the migrate handler and saves 2500
  times, and reports 2500 with the message for a non-zero total. The next run fetches
  one empty batch and reports 0 with \<open>Completed initial import!\<close>.
\<close>

theorem import_2500_in_three_batches:
  assumes "hs MigrateObject = Some m" and "\<forall>obj. \<not> recordFails m w obj"
    and "distinct (map rowKey (rows w))" and "remaining klass w = 2500"
  shows "\<exists>ev w' ev2 w''.
     getImportJob [(klass, hs)] w = (StatusSuccess ''Done with an import pass'' 2500, ev, w') \<and>
     batchSizes ev = [1000, 1000, 500] \<and>
     length (migrateCalls ev) = 2500 \<and> length (saveCalls ev) = 2500 \<and>
     getImportJob [(klass, hs)] w' = (StatusSuccess ''Completed initial import!'' 0, ev2, w'') \<and>
     batchSizes ev2 = [0] \<and> migrateCalls ev2 = [] \<and> saveCalls ev2 = []"
proof -
  have three: "replicate (2500 div BATCH_SIZE) BATCH_SIZE @ [2500 mod BATCH_SIZE] = [1000, 1000, 500]"
    by (simp add: BATCH_SIZE_def numeral_2_eq_2)
  from job_all_ok [of hs m w klass] assms three
  obtain ev w' where first:
    "getImportJob [(klass, hs)] w = (StatusSuccess ''Done with an import pass'' 2500, ev, w')"
    "batchSizes ev = [1000, 1000, 500]"
    "length (migrateCalls ev) = 2500" "length (saveCalls ev) = 2500"
    and after: "remaining klass w' = 0" "distinct (map rowKey (rows w'))"
      "saveError w' = saveError w"
    by auto
  have ok': "\<forall>obj. \<not> recordFails m w' obj"
    using assms(2) recordFails_cong [OF after(3), of m] by simp
  from job_all_ok [of hs m w' klass] assms(1) ok' after(1,2)
  obtain ev2 w'' where second:
    "getImportJob [(klass, hs)] w' = (StatusSuccess ''Completed initial import!'' 0, ev2, w'')"
    "batchSizes ev2 = [0]" "migrateCalls ev2 = []" "saveCalls ev2 = []"
    by auto
  show ?thesis
    using first second by blast
qed


definition nth_widget :: "nat \<Rightarrow> pobj" where
  "nth_widget i = \<lparr>className = ''Widget'', objectId = Some (replicate i CHR ''w''),
     existedFlag = True, attributes = [], dirty = []\<rparr>"

definition widgets :: "nat \<Rightarrow> pobj list" where
  "widgets n = map nth_widget [0..<n]"

definition big_world :: world where
  "big_world = \<lparr>clock = (\<lambda>n. int n), reads = 0, rows = widgets 2500,
     saveError = (\<lambda>_. None)\<rparr>"

lemma widgets_distinct: "distinct (map rowKey (widgets n))"
  by (simp add: widgets_def distinct_map inj_on_def rowKey_def nth_widget_def)

lemma widgets_unmigrated: "filter (unmigrated ''Widget'') (widgets n) = widgets n"
  by (simp add: widgets_def unmigrated_def nth_widget_def get_obj_def)

theorem import_2500_in_three_batches_witness:
  "(no_handlers(MigrateObject := Some ok_handler)) MigrateObject = Some ok_handler \<and>
   (\<forall>obj. \<not> recordFails ok_handler big_world obj) \<and>
   distinct (map rowKey (rows big_world)) \<and> remaining ''Widget'' big_world = 2500 \<and>
   (\<exists>ev w' ev2 w''.
     getImportJob widget_T big_world = (StatusSuccess ''Done with an import pass'' 2500, ev, w') \<and>
     batchSizes ev = [1000, 1000, 500] \<and>
     length (migrateCalls ev) = 2500 \<and> length (saveCalls ev) = 2500 \<and>
     getImportJob widget_T w' = (StatusSuccess ''Completed initial import!'' 0, ev2, w'') \<and>
     batchSizes ev2 = [0] \<and> migrateCalls ev2 = [] \<and> saveCalls ev2 = [])"
proof -
  have a: "(no_handlers(MigrateObject := Some ok_handler)) MigrateObject = Some ok_handler"
    by simp
  have b: "\<forall>obj. \<not> recordFails ok_handler big_world obj"
    by (simp add: recordFails_def ok_handler_def big_world_def)
  have c: "distinct (map rowKey (rows big_world))"
    by (simp add: big_world_def widgets_distinct)
  have d: "remaining ''Widget'' big_world = 2500"
    by (simp add: remaining_def big_world_def widgets_unmigrated) (simp add: widgets_def)
  show ?thesis
    using import_2500_in_three_batches
      [of "no_handlers(MigrateObject := Some ok_handler)" ok_handler big_world "''Widget''"]
      a b c d
    by (simp add: widget_T_def)
qed

end
